theory Spec2Isabelle
  imports Complex_Main "HOL-Library.AList" "HOL-Library.Multiset"
begin

section \<open>The intensity-measure database of qcore (imdb.py)\<close>

text \<open>
  The module builds an SQLite file from per-simulation CSV files (\<open>create_imdb\<close>),
  answers per-station queries with a CSV cache beside the database (\<open>station_ims\<close>)
  and finds stations (\<open>closest_station\<close>, \<open>station_details\<close>).

  Conventions of the embedding.
  \<^item> A Python exception is a value \<open>Inl e\<close> of the result; the exceptions that can
    reach a caller are the constructors of \<open>py_error\<close>.
  \<^item> The file system and the pandas CSV reader are one parameter \<open>read_csv\<close>: the
    frame \<open>pd.read_csv(path, index_col=0)\<close> returns, or the error it raises.
  \<^item> The CSV text of a cache file of \<open>station_ims\<close> is not spelled out: the writer
    and the reader of pandas are two parameters, \<open>to_csv\<close> and \<open>read_cache\<close>.
  \<^item> A table of the database is the list of its rows in insertion order.
\<close>

datatype py_error =
  ValueError | KeyError | IndexError | IntegrityError | OperationalError | ParseError
| ProgrammingError

subsection \<open>Data frames\<close>

text \<open>
  A cell of a frame is a float, a string, or missing (pandas' NaN for an empty CSV
  field). A row is its index label (the CSV's first column, the station name) and its
  cells by column label; \<open>df_columns\<close> lists the labels the frame has.
\<close>

datatype 'v cell = Number 'v | Text string | Missing

record 'v dataframe =
  df_columns :: "string list"
  df_rows :: "(string \<times> (string \<Rightarrow> 'v cell)) list"

definition df_index :: "'v dataframe \<Rightarrow> string list" where
  "df_index c = map fst (df_rows c)"

text \<open>\<open>table[im].values\<close>: the cells of one column, top to bottom.\<close>

definition df_column :: "'v dataframe \<Rightarrow> string \<Rightarrow> 'v cell list" where
  "df_column c im = map (\<lambda>r. snd r im) (df_rows c)"

text \<open>
  \<open>c.loc[labels]\<close> with a list of labels: for each label in turn, every row that
  carries it (a label that occurs twice in the index selects both rows each time it is
  asked for).
\<close>

definition df_loc :: "'v dataframe \<Rightarrow> string list \<Rightarrow> 'v dataframe" where
  "df_loc c labels =
     c\<lparr>df_rows := concat (map (\<lambda>l. filter (\<lambda>r. fst r = l) (df_rows c)) labels)\<rparr>"

text \<open>
  \<open>__pandas_loader\<close>: read the CSV, keep the rows whose \<open>component\<close> cell is
  \<open>geom\<close>, drop that column. A frame without the column raises KeyError.
\<close>

definition pandas_loader ::
  "(string \<Rightarrow> py_error + 'v dataframe) \<Rightarrow> string \<Rightarrow> py_error + 'v dataframe" where
  "pandas_loader read_csv csv =
     (case read_csv csv of
        Inl e \<Rightarrow> Inl e
      | Inr c \<Rightarrow>
          if ''component'' \<in> set (df_columns c)
          then Inr \<lparr>df_columns = filter (\<lambda>n. n \<noteq> ''component'') (df_columns c),
                    df_rows = filter (\<lambda>r. snd r ''component'' = Text ''geom'') (df_rows c)\<rparr>
          else Inl KeyError)"

subsection \<open>The database\<close>

text \<open>
  The tables \<open>ims\<close>, \<open>stations\<close>, \<open>simulations\<close> and one value table per measure,
  rows \<open>(station_id, simulation_id, value)\<close>. The two \<open>_seq\<close> fields are the
  AUTOINCREMENT counters (the largest id ever given). A value column can hold NULL in
  SQLite; here NULL is \<open>Missing\<close>, and the NOT NULL constraint is a check of the insert.
  Longitude and latitude are kept as the station file's text.
\<close>

record 'v imdb =
  ims_tbl :: "string list"
  stations_tbl :: "(nat \<times> string \<times> string \<times> string) list"
  stations_seq :: nat
  simulations_tbl :: "(nat \<times> string) list"
  simulations_seq :: nat
  im_tbls :: "(string \<times> (nat \<times> nat \<times> 'v cell) list) list"

definition registry_tables :: "string list" where
  "registry_tables = [''ims'', ''stations'', ''simulations'']"

text \<open>
  Table names in SQLite. The module writes a measure name between backticks into the
  statement (\<open>`%s` % im\<close>). Inside the backticks two backticks stand for one, so
  the name of the table is the measure name with every pair of backticks read as one;
  a backtick that is not one of a pair ends the name, and the statement that results
  is taken to be a syntax error (a name written to go on with the statement is outside
  the model). Two names are the same table when they differ only in the case of the
  ASCII letters; names that begin with \<open>sqlite_\<close>, in any case, are reserved. A
  statement with a NUL byte is refused before it is parsed. A value table is filed in
  \<open>im_tbls\<close> under its name in lower case.
\<close>

definition sql_lower :: "char \<Rightarrow> char" where
  "sql_lower ch =
     (let n = (of_char ch :: nat) in if 65 \<le> n \<and> n \<le> 90 then char_of (n + 32) else ch)"

definition sql_fold :: "string \<Rightarrow> string" where
  "sql_fold name = map sql_lower name"

fun sql_unquote :: "string \<Rightarrow> string option" where
  "sql_unquote [] = Some []"
| "sql_unquote [ch] = (if ch = CHR 0x60 then None else Some [ch])"
| "sql_unquote (ch # ch' # rest) =
     (if ch = CHR 0x60
      then (if ch' = CHR 0x60 then map_option (Cons ch) (sql_unquote rest) else None)
      else map_option (Cons ch) (sql_unquote (ch' # rest)))"

definition sql_name :: "string \<Rightarrow> string" where
  "sql_name im = sql_fold (case sql_unquote im of None \<Rightarrow> im | Some name \<Rightarrow> name)"

definition sql_reserved :: "string \<Rightarrow> bool" where
  "sql_reserved im \<longleftrightarrow> take 7 (sql_name im) = ''sqlite_''"

text \<open>
  The value table a statement with \<open>`%s` % im\<close> in it works on: \<open>INSERT INTO\<close> and
  \<open>SELECT ... FROM\<close> raise OperationalError when there is no such value table (no
  table at all, or a registry table, which has none of the three columns).
\<close>

definition value_table ::
  "(string \<times> (nat \<times> nat \<times> 'v cell) list) list \<Rightarrow> string
     \<Rightarrow> py_error + (nat \<times> nat \<times> 'v cell) list" where
  "value_table tbls im =
     (if CHR 0x00 \<in> set im then Inl ProgrammingError
      else if sql_unquote im = None then Inl OperationalError
      else case map_of tbls (sql_name im) of
             None \<Rightarrow> Inl OperationalError
           | Some rows \<Rightarrow> Inr rows)"

text \<open>
  \<open>__init_db\<close> on the fresh connection of \<open>create_imdb\<close> (the old file was removed,
  so no table exists). The INSERT into \<open>ims\<close> fails on a repeated name (UNIQUE,
  compared byte by byte); a CREATE TABLE fails when the name is reserved or taken.
\<close>

fun create_im_tables ::
  "string list \<Rightarrow> (string \<times> (nat \<times> nat \<times> 'v cell) list) list
     \<Rightarrow> py_error + (string \<times> (nat \<times> nat \<times> 'v cell) list) list" where
  "create_im_tables [] tbls = Inr tbls"
| "create_im_tables (im # ims) tbls =
     (if CHR 0x00 \<in> set im then Inl ProgrammingError
      else if sql_unquote im = None \<or> sql_reserved im \<or> sql_name im \<in> set registry_tables \<or>
              sql_name im \<in> set (map fst tbls)
           then Inl OperationalError
      else create_im_tables ims (tbls @ [(sql_name im, [])]))"

definition init_db :: "string list \<Rightarrow> py_error + 'v imdb" where
  "init_db ims =
     (if \<not> distinct ims then Inl IntegrityError
      else case create_im_tables ims [] of
             Inl e \<Rightarrow> Inl e
           | Inr tbls \<Rightarrow>
               Inr \<lparr>ims_tbl = ims, stations_tbl = [], stations_seq = 0,
                    simulations_tbl = [], simulations_seq = 0, im_tbls = tbls\<rparr>)"

text \<open>\<open>__add_simulation\<close>: the new row's id is returned (\<open>lastrowid\<close>).\<close>

definition add_simulation :: "'v imdb \<Rightarrow> string \<Rightarrow> py_error + ('v imdb \<times> nat)" where
  "add_simulation db simulation_name =
     (if simulation_name \<in> set (map snd (simulations_tbl db)) then Inl IntegrityError
      else let new_id = Suc (simulations_seq db)
           in Inr (db\<lparr>simulations_tbl := simulations_tbl db @ [(new_id, simulation_name)],
                      simulations_seq := new_id\<rparr>, new_id))"

text \<open>
  \<open>__expand_stations\<close>: the names not yet in the \<open>station_ids\<close> dictionary are
  inserted one by one; each insert checks the UNIQUE name against the table.
\<close>

fun insert_stations ::
  "string list \<Rightarrow> (string \<rightharpoonup> string \<times> string) \<Rightarrow> 'v imdb \<Rightarrow> (string \<rightharpoonup> nat)
     \<Rightarrow> py_error + ('v imdb \<times> (string \<rightharpoonup> nat))" where
  "insert_stations [] station_ll db station_ids = Inr (db, station_ids)"
| "insert_stations (s # rest) station_ll db station_ids =
     (case station_ll s of
        None \<Rightarrow> Inl KeyError
      | Some (lon, lat) \<Rightarrow>
          if s \<in> set (map (\<lambda>r. fst (snd r)) (stations_tbl db)) then Inl IntegrityError
          else let new_id = Suc (stations_seq db)
               in insert_stations rest station_ll
                    (db\<lparr>stations_tbl := stations_tbl db @ [(new_id, s, lon, lat)],
                        stations_seq := new_id\<rparr>)
                    (station_ids(s \<mapsto> new_id)))"

definition expand_stations ::
  "'v imdb \<Rightarrow> (string \<rightharpoonup> nat) \<Rightarrow> string list \<Rightarrow> (string \<rightharpoonup> string \<times> string)
     \<Rightarrow> py_error + ('v imdb \<times> (string \<rightharpoonup> nat))" where
  "expand_stations db station_ids stations station_ll =
     (let stations_new = filter (\<lambda>s. station_ids s = None) stations
      in if length stations_new = 0 then Inr (db, station_ids)
         else insert_stations stations_new station_ll db station_ids)"

text \<open>
  \<open>__store_ims\<close>: the station ids of the index, then one \<open>executemany\<close> per column
  of the frame into the table of that name. A NaN is bound as NULL, which the NOT NULL
  column refuses.
\<close>

fun lookup_ids :: "(string \<rightharpoonup> nat) \<Rightarrow> string list \<Rightarrow> py_error + nat list" where
  "lookup_ids station_ids [] = Inr []"
| "lookup_ids station_ids (s # rest) =
     (case station_ids s of
        None \<Rightarrow> Inl KeyError
      | Some i \<Rightarrow> (case lookup_ids station_ids rest of
                     Inl e \<Rightarrow> Inl e
                   | Inr ids \<Rightarrow> Inr (i # ids)))"

definition insert_values ::
  "string \<Rightarrow> (nat \<times> nat \<times> 'v cell) list
     \<Rightarrow> (string \<times> (nat \<times> nat \<times> 'v cell) list) list
     \<Rightarrow> py_error + (string \<times> (nat \<times> nat \<times> 'v cell) list) list" where
  "insert_values im new_rows tbls =
     (case value_table tbls im of
        Inl e \<Rightarrow> Inl e
      | Inr old_rows \<Rightarrow>
          if Missing \<in> set (map (\<lambda>r. snd (snd r)) new_rows) then Inl IntegrityError
          else Inr (AList.update (sql_name im) (old_rows @ new_rows) tbls))"

fun store_columns ::
  "string list \<Rightarrow> 'v dataframe \<Rightarrow> nat list \<Rightarrow> nat list
     \<Rightarrow> (string \<times> (nat \<times> nat \<times> 'v cell) list) list
     \<Rightarrow> py_error + (string \<times> (nat \<times> nat \<times> 'v cell) list) list" where
  "store_columns [] table stations simulations tbls = Inr tbls"
| "store_columns (im # rest) table stations simulations tbls =
     (case insert_values im (zip stations (zip simulations (df_column table im))) tbls of
        Inl e \<Rightarrow> Inl e
      | Inr tbls' \<Rightarrow> store_columns rest table stations simulations tbls')"

definition store_ims ::
  "'v imdb \<Rightarrow> 'v dataframe \<Rightarrow> (string \<rightharpoonup> nat) \<Rightarrow> nat \<Rightarrow> py_error + 'v imdb" where
  "store_ims db table station_ids sim_id =
     (case lookup_ids station_ids (df_index table) of
        Inl e \<Rightarrow> Inl e
      | Inr stations \<Rightarrow>
          let n_stat = length stations;
              simulations = replicate n_stat sim_id
          in case store_columns (df_columns table) table stations simulations (im_tbls db) of
               Inl e \<Rightarrow> Inl e
             | Inr tbls \<Rightarrow> Inr (db\<lparr>im_tbls := tbls\<rparr>))"

subsection \<open>The build\<close>

text \<open>
  The station file, line by line: \<open>lon, lat, name = line.split()\<close> raises ValueError
  unless the line has three fields. A file is the list of its lines' fields.
\<close>

fun read_station_file ::
  "string list list \<Rightarrow> (string \<rightharpoonup> string \<times> string)
     \<Rightarrow> py_error + (string \<rightharpoonup> string \<times> string)" where
  "read_station_file [] station_ll = Inr station_ll"
| "read_station_file (line # rest) station_ll =
     (case line of
        [lon, lat, name] \<Rightarrow> read_station_file rest (station_ll(name \<mapsto> (lon, lat)))
      | _ \<Rightarrow> Inl ValueError)"

definition listed_stations :: "(string \<rightharpoonup> string \<times> string) \<Rightarrow> string list \<Rightarrow> string list" where
  "listed_stations station_ll stations = filter (\<lambda>s. station_ll s \<noteq> None) stations"

text \<open>\<open>os.path.splitext(os.path.basename(path))[0]\<close>.\<close>

definition basename :: "string \<Rightarrow> string" where
  "basename path = rev (takeWhile (\<lambda>ch. ch \<noteq> CHR ''/'') (rev path))"

definition splitext_root :: "string \<Rightarrow> string" where
  "splitext_root p =
     (if CHR ''.'' \<notin> set p then p
      else let root = rev (tl (dropWhile (\<lambda>ch. ch \<noteq> CHR ''.'') (rev p)))
           in if \<exists>ch \<in> set root. ch \<noteq> CHR ''.'' then root else p)"

definition sim_name :: "string \<Rightarrow> string" where
  "sim_name path = splitext_root (basename path)"

text \<open>What the build prints, one constructor per format string.\<close>

datatype message =
  NoStations string
| Progress nat nat
| LoadingComplete

text \<open>
  The state of the ingestion loop: the database, the \<open>station_ids\<close> dictionary, the
  \<open>sink\<close> dictionary of submitted parse tasks (key: index of the file, value: the path
  the task reads) and the printed lines.
\<close>

record 'v build_state =
  st_db :: "'v imdb"
  st_station_ids :: "string \<rightharpoonup> nat"
  st_sink :: "(nat \<times> string) list"
  st_out :: "message list"

text \<open>
  Lines 209 to 213: \<open>del sink[i]\<close>, then the next task is submitted; the IndexError
  of \<open>csvs[i + step]\<close> past the last file is caught and nothing is submitted.
\<close>

definition prefetch :: "string list \<Rightarrow> nat \<Rightarrow> nat \<Rightarrow> (nat \<times> string) list \<Rightarrow> (nat \<times> string) list" where
  "prefetch csvs step i sink =
     (let sink' = AList.delete i sink
      in if i + step < length csvs then AList.update (i + step) (csvs ! (i + step)) sink'
         else sink')"

text \<open>
  One iteration of the loop of lines 206 to 225. \<open>sink[i].get()\<close> returns what the
  loader returned for the task's file, or raises what it raised.
\<close>

definition ingest_file ::
  "(string \<Rightarrow> py_error + 'v dataframe) \<Rightarrow> (string \<rightharpoonup> string \<times> string) \<Rightarrow> string list \<Rightarrow> nat
     \<Rightarrow> nat \<Rightarrow> 'v build_state \<Rightarrow> py_error + 'v build_state" where
  "ingest_file read_csv station_ll csvs step i st =
     (case map_of (st_sink st) i of
        None \<Rightarrow> Inl KeyError
      | Some task \<Rightarrow>
          (case pandas_loader read_csv task of
             Inl e \<Rightarrow> Inl e
           | Inr c \<Rightarrow>
               let sink' = prefetch csvs step i (st_sink st);
                   interesting_stations = listed_stations station_ll (df_index c)
               in if length interesting_stations = 0
                  then Inr (st\<lparr>st_sink := sink',
                               st_out := st_out st @ [NoStations (sim_name (csvs ! i))]\<rparr>)
                  else
                    (case add_simulation (st_db st) (sim_name (csvs ! i)) of
                       Inl e \<Rightarrow> Inl e
                     | Inr (db1, sim_id) \<Rightarrow>
                         (case expand_stations db1 (st_station_ids st)
                                 interesting_stations station_ll of
                            Inl e \<Rightarrow> Inl e
                          | Inr (db2, station_ids') \<Rightarrow>
                              (case store_ims db2 (df_loc c interesting_stations)
                                      station_ids' sim_id of
                                 Inl e \<Rightarrow> Inl e
                               | Inr db3 \<Rightarrow>
                                   Inr \<lparr>st_db = db3, st_station_ids = station_ids',
                                        st_sink = sink',
                                        st_out = st_out st
                                          @ [Progress sim_id (length csvs)]\<rparr>)))))"

fun ingest_loop ::
  "(string \<Rightarrow> py_error + 'v dataframe) \<Rightarrow> (string \<rightharpoonup> string \<times> string) \<Rightarrow> string list \<Rightarrow> nat
     \<Rightarrow> nat list \<Rightarrow> 'v build_state \<Rightarrow> py_error + 'v build_state" where
  "ingest_loop read_csv station_ll csvs step [] st = Inr st"
| "ingest_loop read_csv station_ll csvs step (i # rest) st =
     (case ingest_file read_csv station_ll csvs step i st of
        Inl e \<Rightarrow> Inl e
      | Inr st' \<Rightarrow> ingest_loop read_csv station_ll csvs step rest st')"

text \<open>
  Lines 196 to 204: the pool (ValueError for fewer than one process), the first
  \<open>step\<close> tasks, and the schema from the columns of the first file's frame.
  \<open>sink[0]\<close> raises KeyError when no file was found.
\<close>

definition initial_sink :: "string list \<Rightarrow> nat \<Rightarrow> (nat \<times> string) list" where
  "initial_sink csvs step = map (\<lambda>i. (i, csvs ! i)) [0..<step]"

definition initial_state ::
  "(string \<Rightarrow> py_error + 'v dataframe) \<Rightarrow> string list \<Rightarrow> int \<Rightarrow> py_error + 'v build_state" where
  "initial_state read_csv csvs nproc =
     (if nproc < 1 then Inl ValueError
      else let step = min (nat nproc) (length csvs);
               sink = initial_sink csvs step
           in case map_of sink 0 of
                None \<Rightarrow> Inl KeyError
              | Some task \<Rightarrow>
                  (case pandas_loader read_csv task of
                     Inl e \<Rightarrow> Inl e
                   | Inr c \<Rightarrow>
                       (case init_db (df_columns c) of
                          Inl e \<Rightarrow> Inl e
                        | Inr db \<Rightarrow>
                            Inr \<lparr>st_db = db, st_station_ids = Map.empty,
                                 st_sink = sink, st_out = []\<rparr>)))"

text \<open>
  \<open>create_imdb\<close>: \<open>csvs\<close> is the list \<open>glob\<close> returned, in its order; the result is
  the final state of the loop with the closing line printed.
\<close>

definition create_imdb ::
  "(string \<Rightarrow> py_error + 'v dataframe) \<Rightarrow> string list list \<Rightarrow> string list \<Rightarrow> int
     \<Rightarrow> py_error + 'v build_state" where
  "create_imdb read_csv station_file csvs nproc =
     (case read_station_file station_file Map.empty of
        Inl e \<Rightarrow> Inl e
      | Inr station_ll \<Rightarrow>
          (case initial_state read_csv csvs nproc of
             Inl e \<Rightarrow> Inl e
           | Inr st0 \<Rightarrow>
               (case ingest_loop read_csv station_ll csvs
                       (min (nat nproc) (length csvs)) [0..<length csvs] st0 of
                  Inl e \<Rightarrow> Inl e
                | Inr st \<Rightarrow> Inr (st\<lparr>st_out := st_out st @ [LoadingComplete]\<rparr>))))"

text \<open>
  The states the loop can be in at the head of iteration \<open>i\<close>: the initial state at
  \<open>0\<close>, and the state one successful iteration leaves.
\<close>

inductive reachable ::
  "(string \<Rightarrow> py_error + 'v dataframe) \<Rightarrow> (string \<rightharpoonup> string \<times> string) \<Rightarrow> string list \<Rightarrow> int
     \<Rightarrow> nat \<Rightarrow> 'v build_state \<Rightarrow> bool"
  for read_csv station_ll csvs nproc where
  reach_init:
    "initial_state read_csv csvs nproc = Inr st \<Longrightarrow> reachable read_csv station_ll csvs nproc 0 st"
| reach_step:
    "reachable read_csv station_ll csvs nproc i st \<Longrightarrow> i < length csvs \<Longrightarrow>
     ingest_file read_csv station_ll csvs (min (nat nproc) (length csvs)) i st = Inr st' \<Longrightarrow>
     reachable read_csv station_ll csvs nproc (Suc i) st'"

subsection \<open>Files with stations of interest\<close>

text \<open>
  A file the loop commits: it parses and the station file lists one of its stations.
\<close>

definition has_stations ::
  "(string \<Rightarrow> py_error + 'v dataframe) \<Rightarrow> (string \<rightharpoonup> string \<times> string) \<Rightarrow> string \<Rightarrow> bool" where
  "has_stations read_csv station_ll csv =
     (case pandas_loader read_csv csv of
        Inl e \<Rightarrow> False
      | Inr c \<Rightarrow> listed_stations station_ll (df_index c) \<noteq> [])"

subsection \<open>Invariants of the value tables\<close>





subsection \<open>Queries at a station\<close>

text \<open>
  The frame \<open>station_ims\<close> builds and caches: simulation names as row labels,
  measure names as column labels, and the values by column (\<open>im_values[:, i]\<close> is
  the \<open>i\<close>-th list). A float cell is a number or NaN, so the cells are those of
  \<open>cell\<close> without \<open>Text\<close>. A row label is a string in the frame that is built from
  the database; in a frame that pandas reads from a CSV file it is what the reader
  makes of the first column, a string or an integer.
\<close>

datatype label = StrLabel string | IntLabel int

record 'v station_frame =
  sf_index :: "label list"
  sf_columns :: "string list"
  sf_values :: "'v cell list list"

text \<open>What \<open>station_ims\<close> returns: \<open>None\<close>, the frame, or one column of it.\<close>

datatype 'v query_result =
  NoResult
| Frame "'v station_frame"
| Series "label list" "'v cell list"

text \<open>
  What a call does besides returning: it reads a cache file, reads the database, maps
  the per-measure reads over a pool of so many tasks, writes a cache file, prints that
  the station is unknown.
\<close>

datatype query_event =
  CacheRead string
| StoreRead
| FanOut nat
| CacheWrite string
| PrintNotFound string

text \<open>
  The world of a query: the database and the cache directory beside it, one file per
  station name; \<open>'t\<close> is the text of a cache file. The CSV writer and reader of
  pandas for these files are the parameters \<open>to_csv\<close> and \<open>read_cache\<close> below:
  \<open>to_csv df\<close> is the text \<open>df.to_csv(csv)\<close> writes, \<open>read_cache text\<close> is what
  \<open>pd.read_csv(csv, index_col=0)\<close> returns for a file with that text.
\<close>

record ('v, 't) world =
  w_db :: "'v imdb"
  w_cache :: "string \<rightharpoonup> 't"

record ('v, 't) query_outcome =
  q_result :: "py_error + 'v query_result"
  q_events :: "query_event list"
  q_world :: "('v, 't) world"

text \<open>\<open>df[im]\<close> when a measure is asked for; KeyError when the frame has no such column.\<close>

definition project :: "string option \<Rightarrow> 'v station_frame \<Rightarrow> py_error + 'v query_result" where
  "project im df =
     (case im of
        None \<Rightarrow> Inr (Frame df)
      | Some m \<Rightarrow>
          (case map_of (zip (sf_columns df) (sf_values df)) m of
             None \<Rightarrow> Inl KeyError
           | Some col \<Rightarrow> Inr (Series (sf_index df) col)))"

text \<open>
  \<open>__im_at_station\<close>: the rows of one station in one value table, by ascending
  simulation id, written into the columns of a zero array of width \<open>n_sim\<close>. A row
  past the width raises IndexError; a text value does not convert to a float.
\<close>

fun fill_values ::
  "(nat \<times> 'v cell) list \<Rightarrow> nat \<Rightarrow> (nat \<times> 'v cell) list \<Rightarrow> py_error + (nat \<times> 'v cell) list" where
  "fill_values [] r station_values = Inr station_values"
| "fill_values (row # rest) r station_values =
     (if length station_values \<le> r then Inl IndexError
      else case snd row of
             Text s \<Rightarrow> Inl ValueError
           | _ \<Rightarrow> fill_values rest (Suc r) (station_values[r := row]))"

definition im_at_station ::
  "'v::zero imdb \<Rightarrow> string \<Rightarrow> nat \<Rightarrow> nat \<Rightarrow> py_error + (nat list \<times> 'v cell list)" where
  "im_at_station db im station_id n_sim =
     (case value_table (im_tbls db) im of
        Inl e \<Rightarrow> Inl e
      | Inr tbl \<Rightarrow>
          (case fill_values
                  (sort_key fst (map snd (filter (\<lambda>r. fst r = station_id) tbl)))
                  0 (replicate n_sim (0, Number 0)) of
             Inl e \<Rightarrow> Inl e
           | Inr station_values \<Rightarrow> Inr (map fst station_values, map snd station_values)))"

text \<open>\<open>pool.map\<close>: the results in the order of the arguments, or the first error.\<close>

fun pool_map :: "('a \<Rightarrow> py_error + 'b) \<Rightarrow> 'a list \<Rightarrow> py_error + 'b list" where
  "pool_map f [] = Inr []"
| "pool_map f (x # xs) =
     (case f x of
        Inl e \<Rightarrow> Inl e
      | Inr y \<Rightarrow> (case pool_map f xs of Inl e \<Rightarrow> Inl e | Inr ys \<Rightarrow> Inr (y # ys)))"

text \<open>
  The names of the simulations whose id is among \<open>simulation_ids\<close>, by ascending id
  (lines 306 to 312).
\<close>

definition gm_names_of :: "'v imdb \<Rightarrow> nat list \<Rightarrow> string list" where
  "gm_names_of db simulation_ids =
     map snd (sort_key fst (filter (\<lambda>s. fst s \<in> set simulation_ids) (simulations_tbl db)))"

text \<open>
  Lines 269 to 322, for a station without a cache file. \<open>pd.DataFrame\<close> raises
  ValueError when the number of row labels is not the number of rows of the array.
  The cache file is written (\<open>df.to_csv\<close>) before the column is projected.
\<close>

definition query_store ::
  "('v station_frame \<Rightarrow> 't) \<Rightarrow> ('v::zero, 't) world \<Rightarrow> string \<Rightarrow> string option \<Rightarrow> int option
     \<Rightarrow> ('v, 't) query_outcome" where
  "query_store to_csv w station im nproc =
     (let db = w_db w in
      case filter (\<lambda>r. fst (snd r) = station) (stations_tbl db) of
        [] \<Rightarrow> \<lparr>q_result = Inr NoResult, q_events = [StoreRead, PrintNotFound station],
               q_world = w\<rparr>
      | st # _ \<Rightarrow>
          (let station_id = fst st; im_names = ims_tbl db; n_im = length im_names in
           case im_names of
             [] \<Rightarrow> \<lparr>q_result = Inl IndexError, q_events = [StoreRead], q_world = w\<rparr>
           | im0 # _ \<Rightarrow>
               (case value_table (im_tbls db) im0 of
                  Inl e \<Rightarrow> \<lparr>q_result = Inl e, q_events = [StoreRead], q_world = w\<rparr>
                | Inr tbl0 \<Rightarrow>
                    (let n_sim = length (filter (\<lambda>r. fst r = station_id) tbl0);
                         procs = min (case nproc of None \<Rightarrow> int n_im | Some p \<Rightarrow> p) (int n_im)
                     in if procs < 1
                        then \<lparr>q_result = Inl ValueError, q_events = [StoreRead], q_world = w\<rparr>
                        else
                          (case pool_map (\<lambda>m. im_at_station db m station_id n_sim) im_names of
                             Inl e \<Rightarrow> \<lparr>q_result = Inl e, q_events = [StoreRead, FanOut n_im],
                                       q_world = w\<rparr>
                           | Inr id_vals \<Rightarrow>
                               (let simulation_ids = fst (hd id_vals);
                                    gm_names = gm_names_of db simulation_ids
                                in if length gm_names \<noteq> n_sim
                                   then \<lparr>q_result = Inl ValueError,
                                         q_events = [StoreRead, FanOut n_im], q_world = w\<rparr>
                                   else
                                     (let df = \<lparr>sf_index = map StrLabel gm_names, sf_columns = im_names,
                                                sf_values = map snd id_vals\<rparr>
                                      in \<lparr>q_result = project im df,
                                          q_events = [StoreRead, FanOut n_im, CacheWrite station],
                                          q_world =
                                            w\<lparr>w_cache := (w_cache w)(station \<mapsto> to_csv df)\<rparr>\<rparr>)))))))"

text \<open>
  \<open>station_ims\<close>: the cache file of the station, when there is one, is read and
  returned; the database is opened only without one.
\<close>

definition station_ims ::
  "('v station_frame \<Rightarrow> 't) \<Rightarrow> ('t \<Rightarrow> py_error + 'v station_frame) \<Rightarrow> ('v::zero, 't) world
     \<Rightarrow> string \<Rightarrow> string option \<Rightarrow> int option \<Rightarrow> ('v, 't) query_outcome" where
  "station_ims to_csv read_cache w station im nproc =
     (case w_cache w station of
        Some cached \<Rightarrow>
          \<lparr>q_result = (case read_cache cached of Inl e \<Rightarrow> Inl e | Inr dataframe \<Rightarrow> project im dataframe),
           q_events = [CacheRead station], q_world = w\<rparr>
      | None \<Rightarrow> query_store to_csv w station im nproc)"

text \<open>The row labels of a result.\<close>

definition result_index :: "'v query_result \<Rightarrow> label list" where
  "result_index res = (case res of NoResult \<Rightarrow> [] | Frame df \<Rightarrow> sf_index df | Series ix col \<Rightarrow> ix)"

subsection \<open>Station records\<close>

text \<open>
  The numpy records of \<open>closest_station\<close> and \<open>station_details\<close>: the name field
  has type \<open>S7\<close>, seven bytes, so a longer name is cut and trailing NUL bytes are not
  part of the value read back. The conversion of a stored coordinate to \<open>f4\<close> is the
  parameter \<open>to_f4\<close> (\<open>None\<close>: the stored text is not a number, ValueError).
  \<open>rec_dist\<close> is the distance field, which only \<open>closest_station\<close> fills.
\<close>

record ('c, 'd) station_rec =
  rec_id :: nat
  rec_name :: string
  rec_lon :: 'c
  rec_lat :: 'c
  rec_dist :: "'d option"

definition np_S7 :: "string \<Rightarrow> string" where
  "np_S7 name = rev (dropWhile (\<lambda>ch. ch = CHR 0x00) (rev (take 7 name)))"

fun np_records ::
  "(string \<Rightarrow> 'c option) \<Rightarrow> (nat \<times> string \<times> string \<times> string) list
     \<Rightarrow> py_error + ('c, 'd) station_rec list" where
  "np_records to_f4 [] = Inr []"
| "np_records to_f4 (row # rest) =
     (case (to_f4 (fst (snd (snd row))), to_f4 (snd (snd (snd row)))) of
        (Some lon, Some lat) \<Rightarrow>
          (case np_records to_f4 rest of
             Inl e \<Rightarrow> Inl e
           | Inr recs \<Rightarrow>
               Inr (\<lparr>rec_id = fst row, rec_name = np_S7 (fst (snd row)),
                      rec_lon = lon, rec_lat = lat, rec_dist = None\<rparr> # recs))
      | _ \<Rightarrow> Inl ValueError)"

text \<open>\<open>np.argmin\<close>: the first position of the least element.\<close>

fun argmin :: "'d::linorder list \<Rightarrow> nat" where
  "argmin [] = 0"
| "argmin [x] = 0"
| "argmin (x # y # ys) = (let j = argmin (y # ys) in if (y # ys) ! j < x then Suc j else 0)"

text \<open>
  \<open>closest_station\<close>: \<open>dist_of lon lat rlon rlat\<close> stands for the float expression
  of lines 347 to 353. \<open>np.argmin\<close> of an empty array raises ValueError.
\<close>

definition closest_station ::
  "(string \<Rightarrow> 'c option) \<Rightarrow> ('q \<Rightarrow> 'q \<Rightarrow> 'c \<Rightarrow> 'c \<Rightarrow> 'd::linorder) \<Rightarrow> 'v imdb \<Rightarrow> 'q \<Rightarrow> 'q
     \<Rightarrow> py_error + ('c, 'd) station_rec" where
  "closest_station to_f4 dist_of db lon lat =
     (case np_records to_f4 (stations_tbl db) of
        Inl e \<Rightarrow> Inl e
      | Inr r0 \<Rightarrow>
          (let dist = map (\<lambda>x. dist_of lon lat (rec_lon x) (rec_lat x)) r0
           in if r0 = [] then Inl ValueError
              else Inr ((r0 ! argmin dist)\<lparr>rec_dist := Some (dist ! argmin dist)\<rparr>)))"

datatype ('c, 'd) details = One "('c, 'd) station_rec" | Many "('c, 'd) station_rec list"

definition station_details ::
  "(string \<Rightarrow> 'c option) \<Rightarrow> 'v imdb \<Rightarrow> string option \<Rightarrow> nat option
     \<Rightarrow> py_error + ('c, 'd) details" where
  "station_details to_f4 db station_name station_id =
     (let rows = (case station_name of
                    Some n \<Rightarrow> filter (\<lambda>row. fst (snd row) = n) (stations_tbl db)
                  | None \<Rightarrow>
                      (case station_id of
                         Some i \<Rightarrow> filter (\<lambda>row. fst row = i) (stations_tbl db)
                       | None \<Rightarrow> stations_tbl db))
      in case np_records to_f4 rows of
           Inl e \<Rightarrow> Inl e
         | Inr r \<Rightarrow> if length r = 1 then Inr (One (r ! 0)) else Inr (Many r))"

text \<open>
  A record that carries the name of a stored station as \<open>S7\<close> holds it: the id of
  a row of \<open>stations\<close>, that row's name cut to seven bytes, and so a name other than
  the stored one when the stored one is longer.
\<close>

definition carries_S7_name :: "'v imdb \<Rightarrow> ('c, 'd) station_rec \<Rightarrow> bool" where
  "carries_S7_name db rec \<longleftrightarrow>
     (\<exists>row \<in> set (stations_tbl db).
        rec_id rec = fst row \<and> rec_name rec = np_S7 (fst (snd row)) \<and>
        length (rec_name rec) \<le> 7 \<and>
        (7 < length (fst (snd row)) \<longrightarrow> rec_name rec \<noteq> fst (snd row)))"

subsection \<open>A small run tree\<close>

text \<open>
  Six result files and a station file that lists station \<open>A\<close> only. The first file
  has station \<open>A\<close> in three components and station \<open>B\<close>; the second has \<open>A\<close>
  once; the third has only the unlisted station \<open>Z\<close>; the fourth has two \<open>geom\<close>
  rows for \<open>A\<close>; the fifth has \<open>A\<close> once, under the columns \<open>PGA\<close> and \<open>pga\<close>;
  the sixth, of a simulation named \<open>2010\<close>, has \<open>A\<close> once. Every other path fails
  to parse.
\<close>

definition cells_of :: "(string \<times> 'v cell) list \<Rightarrow> string \<Rightarrow> 'v cell" where
  "cells_of kvs label = (case map_of kvs label of None \<Rightarrow> Missing | Some x \<Rightarrow> x)"

definition ex_f1 :: string where "ex_f1 = ''R/F/IM_calc/F_1/F_1.csv''"
definition ex_f2 :: string where "ex_f2 = ''R/F/IM_calc/F_2/F_2.csv''"
definition ex_f3 :: string where "ex_f3 = ''R/F/IM_calc/F_3/F_3.csv''"
definition ex_f4 :: string where "ex_f4 = ''R/F/IM_calc/F_4/F_4.csv''"
definition ex_f5 :: string where "ex_f5 = ''R/F/IM_calc/F_5/F_5.csv''"
definition ex_f6 :: string where "ex_f6 = ''R/F/IM_calc/2010/2010.csv''"
definition ex_bad :: string where "ex_bad = ''R/F/IM_calc/F_9/F_9.csv''"

definition ex_read_csv :: "string \<Rightarrow> py_error + real dataframe" where
  "ex_read_csv path =
     (if path = ex_f1 then
        Inr \<lparr>df_columns = [''component'', ''PGA''],
             df_rows =
               [(''A'', cells_of [(''component'', Text ''090''), (''PGA'', Number 0.75)]),
                (''A'', cells_of [(''component'', Text ''geom''), (''PGA'', Number 0.5)]),
                (''B'', cells_of [(''component'', Text ''geom''), (''PGA'', Number 0.25)])]\<rparr>
      else if path = ex_f2 then
        Inr \<lparr>df_columns = [''component'', ''PGA''],
             df_rows =
               [(''A'', cells_of [(''component'', Text ''geom''), (''PGA'', Number 1.5)])]\<rparr>
      else if path = ex_f3 then
        Inr \<lparr>df_columns = [''component'', ''PGA''],
             df_rows =
               [(''Z'', cells_of [(''component'', Text ''geom''), (''PGA'', Number 2.5)])]\<rparr>
      else if path = ex_f4 then
        Inr \<lparr>df_columns = [''component'', ''PGA''],
             df_rows =
               [(''A'', cells_of [(''component'', Text ''geom''), (''PGA'', Number 3)]),
                (''A'', cells_of [(''component'', Text ''geom''), (''PGA'', Number 4)])]\<rparr>
      else if path = ex_f5 then
        Inr \<lparr>df_columns = [''component'', ''PGA'', ''pga''],
             df_rows =
               [(''A'', cells_of [(''component'', Text ''geom''), (''PGA'', Number 5),
                                 (''pga'', Number 6)])]\<rparr>
      else if path = ex_f6 then
        Inr \<lparr>df_columns = [''component'', ''PGA''],
             df_rows =
               [(''A'', cells_of [(''component'', Text ''geom''), (''PGA'', Number 0.5)])]\<rparr>
      else Inl ParseError)"

definition ex_station_file :: "string list list" where
  "ex_station_file = [[''172.5'', ''-43.5'', ''A'']]"

definition ex_station_ll :: "string \<rightharpoonup> string \<times> string" where
  "ex_station_ll = [''A'' \<mapsto> (''172.5'', ''-43.5'')]"

definition ex_csvs :: "string list" where
  "ex_csvs = [ex_f3, ex_f1, ex_f2]"

definition ex_empty_db :: "real imdb" where
  "ex_empty_db =
     \<lparr>ims_tbl = [''PGA''], stations_tbl = [], stations_seq = 0,
      simulations_tbl = [], simulations_seq = 0, im_tbls = [(''pga'', [])]\<rparr>"

definition ex_st0 :: "real build_state" where
  "ex_st0 = \<lparr>st_db = ex_empty_db, st_station_ids = Map.empty,
             st_sink = [(0, ex_f3), (1, ex_f1)], st_out = []\<rparr>"

definition ex_c3 :: "real dataframe" where
  "ex_c3 = \<lparr>df_columns = [''PGA''],
            df_rows = [(''Z'', cells_of [(''component'', Text ''geom''), (''PGA'', Number 2.5)])]\<rparr>"

text \<open>
  The databases three builds of the run tree leave (third, first and second file; first
  and fourth file; sixth file alone), each with an empty cache directory, and the frame
  of station \<open>A\<close> in the first and in the third.

  The text of a cache file is named by the frame written to it. What pandas reads back
  is that frame, except for the third database: its file is
  \<open>,PGA\<close> / \<open>2010,0.5\<close>, and \<open>pd.read_csv(csv, index_col=0)\<close> reads a first column
  of decimal numerals as integers.
\<close>

definition ex_db :: "real imdb" where
  "ex_db =
     \<lparr>ims_tbl = [''PGA''], stations_tbl = [(1, ''A'', ''172.5'', ''-43.5'')], stations_seq = 1,
      simulations_tbl = [(1, ''F_1''), (2, ''F_2'')], simulations_seq = 2,
      im_tbls = [(''pga'', [(1, 1, Number 0.5), (1, 2, Number 1.5)])]\<rparr>"

definition ex_dup_db :: "real imdb" where
  "ex_dup_db =
     \<lparr>ims_tbl = [''PGA''], stations_tbl = [(1, ''A'', ''172.5'', ''-43.5'')], stations_seq = 1,
      simulations_tbl = [(1, ''F_1''), (2, ''F_4'')], simulations_seq = 2,
      im_tbls = [(''pga'', [(1, 1, Number 0.5), (1, 2, Number 3), (1, 2, Number 4),
                            (1, 2, Number 3), (1, 2, Number 4)])]\<rparr>"

definition ex_num_db :: "real imdb" where
  "ex_num_db =
     \<lparr>ims_tbl = [''PGA''], stations_tbl = [(1, ''A'', ''172.5'', ''-43.5'')], stations_seq = 1,
      simulations_tbl = [(1, ''2010'')], simulations_seq = 1,
      im_tbls = [(''pga'', [(1, 1, Number 0.5)])]\<rparr>"

definition ex_frame :: "real station_frame" where
  "ex_frame = \<lparr>sf_index = [StrLabel ''F_1'', StrLabel ''F_2''], sf_columns = [''PGA''],
               sf_values = [[Number 0.5, Number 1.5]]\<rparr>"

definition ex_num_frame :: "real station_frame" where
  "ex_num_frame = \<lparr>sf_index = [StrLabel ''2010''], sf_columns = [''PGA''],
                   sf_values = [[Number 0.5]]\<rparr>"

definition ex_to_csv :: "real station_frame \<Rightarrow> real station_frame" where
  "ex_to_csv df = df"

definition ex_read_cache :: "real station_frame \<Rightarrow> py_error + real station_frame" where
  "ex_read_cache cached =
     (if cached = ex_num_frame then Inr (ex_num_frame\<lparr>sf_index := [IntLabel 2010]\<rparr>)
      else Inr cached)"

definition ex_world :: "(real, real station_frame) world" where
  "ex_world = \<lparr>w_db = ex_db, w_cache = Map.empty\<rparr>"

definition ex_dup_world :: "(real, real station_frame) world" where
  "ex_dup_world = \<lparr>w_db = ex_dup_db, w_cache = Map.empty\<rparr>"

definition ex_num_world :: "(real, real station_frame) world" where
  "ex_num_world = \<lparr>w_db = ex_num_db, w_cache = Map.empty\<rparr>"

text \<open>
  A database with a station whose name has nine bytes, a conversion of the stored
  coordinates, and a distance that stands in for the float expression.
\<close>

definition ex_long_db :: "real imdb" where
  "ex_long_db =
     \<lparr>ims_tbl = [''PGA''],
      stations_tbl = [(1, ''STATION01'', ''172.5'', ''-43.5''), (2, ''B'', ''173.5'', ''-42.5'')],
      stations_seq = 2, simulations_tbl = [], simulations_seq = 0,
      im_tbls = [(''pga'', [])]\<rparr>"

definition ex_to_f4 :: "string \<Rightarrow> real option" where
  "ex_to_f4 s =
     (if s = ''172.5'' then Some 172.5 else if s = ''-43.5'' then Some (- 43.5)
      else if s = ''173.5'' then Some 173.5 else if s = ''-42.5'' then Some (- 42.5)
      else None)"

definition ex_dist :: "real \<Rightarrow> real \<Rightarrow> real \<Rightarrow> real \<Rightarrow> real" where
  "ex_dist lon lat rlon rlat = \<bar>rlon - lon\<bar> + \<bar>rlat - lat\<bar>"

lemma alist_update_fresh:
  "k \<notin> fst ` set al \<Longrightarrow> AList.update k v al = al @ [(k, v)]"
  by (induction al) auto

lemma alist_delete_head_upt:
  "i < m \<Longrightarrow> AList.delete i (map (\<lambda>k. (k, f k)) [i..<m]) = map (\<lambda>k. (k, f k)) [Suc i..<m]"
  by (simp add: upt_conv_Cons AList.delete_eq filter_map o_def filter_id_conv)

lemma prefetch_window:
  assumes "i < length csvs" and "0 < step"
  shows "prefetch csvs step i (map (\<lambda>k. (k, csvs ! k)) [i..<min (i + step) (length csvs)])
         = map (\<lambda>k. (k, csvs ! k)) [Suc i..<min (Suc i + step) (length csvs)]"
proof -
  let ?f = "\<lambda>k. (k, csvs ! k)"
  have im: "i < min (i + step) (length csvs)" using assms by simp
  have del: "AList.delete i (map ?f [i..<min (i + step) (length csvs)])
             = map ?f [Suc i..<min (i + step) (length csvs)]"
    using alist_delete_head_upt [OF im] .
  show ?thesis
  proof (cases "i + step < length csvs")
    case True
    then have m1: "min (i + step) (length csvs) = i + step"
      and m2: "min (Suc i + step) (length csvs) = Suc (i + step)" by simp_all
    have fresh: "i + step \<notin> fst ` set (map ?f [Suc i..<i + step])" by (auto simp: image_iff)
    have "[Suc i..<Suc (i + step)] = [Suc i..<i + step] @ [i + step]"
      using assms by simp
    then show ?thesis
      using True del alist_update_fresh [OF fresh]
      by (simp add: prefetch_def m1 m2 del: upt_Suc)
  next
    case False
    then have m1: "min (i + step) (length csvs) = length csvs"
      and m2: "min (Suc i + step) (length csvs) = length csvs" by simp_all
    show ?thesis using False del by (simp add: prefetch_def m1 m2)
  qed
qed

lemma ingest_file_sink:
  "ingest_file read_csv station_ll csvs step i st = Inr st' \<Longrightarrow>
   st_sink st' = prefetch csvs step i (st_sink st)"
  by (auto simp: ingest_file_def Let_def split: option.splits sum.splits if_splits prod.splits)

lemma initial_state_sink:
  "initial_state read_csv csvs nproc = Inr st \<Longrightarrow>
   1 \<le> nproc \<and> 0 < length csvs \<and> st_sink st = initial_sink csvs (min (nat nproc) (length csvs))"
  by (auto simp: initial_state_def initial_sink_def Let_def map_of_eq_None_iff image_iff
      split: option.splits sum.splits if_splits)

lemma reachable_nproc:
  "reachable read_csv station_ll csvs nproc i st \<Longrightarrow> 1 \<le> nproc \<and> 0 < length csvs \<and> i \<le> length csvs"
  by (induction rule: reachable.induct) (auto dest: initial_state_sink)

lemma reachable_sink:
  "reachable read_csv station_ll csvs nproc i st \<Longrightarrow>
   st_sink st = map (\<lambda>k. (k, csvs ! k)) [i..<min (i + min (nat nproc) (length csvs)) (length csvs)]"
proof (induction rule: reachable.induct)
  case (reach_init st)
  then show ?case by (auto dest!: initial_state_sink simp: initial_sink_def)
next
  case (reach_step i st st')
  from reach_step.hyps(1) have "1 \<le> nproc" "0 < length csvs" by (auto dest: reachable_nproc)
  then have "0 < min (nat nproc) (length csvs)" by simp
  from prefetch_window [OF reach_step.hyps(2) this] ingest_file_sink [OF reach_step.hyps(3)]
    reach_step.IH
  show ?case by simp
qed

lemma reachable_task:
  assumes "reachable read_csv station_ll csvs nproc i st" and "i < length csvs"
  shows "map_of (st_sink st) i = Some (csvs ! i)"
proof -
  from assms(1) have "1 \<le> nproc" by (auto dest: reachable_nproc)
  with assms(2) have "i < min (i + min (nat nproc) (length csvs)) (length csvs)" by auto
  then have "[i..<min (i + min (nat nproc) (length csvs)) (length csvs)]
             = i # [Suc i..<min (i + min (nat nproc) (length csvs)) (length csvs)]"
    by (rule upt_conv_Cons)
  with reachable_sink [OF assms(1)] show ?thesis by simp
qed

lemma ingest_file_parsed:
  "ingest_file read_csv station_ll csvs step i st = Inr st' \<Longrightarrow>
   \<exists>task c. map_of (st_sink st) i = Some task \<and> pandas_loader read_csv task = Inr c"
  by (auto simp: ingest_file_def split: option.splits sum.splits)

lemma reachable_parsed:
  "reachable read_csv station_ll csvs nproc i st \<Longrightarrow> k < i \<Longrightarrow>
   \<exists>c. pandas_loader read_csv (csvs ! k) = Inr c"
proof (induction rule: reachable.induct)
  case (reach_init st)
  then show ?case by simp
next
  case (reach_step i st st')
  show ?case
  proof (cases "k = i")
    case True
    from ingest_file_parsed [OF reach_step.hyps(3)] reachable_task [OF reach_step.hyps(1,2)]
    show ?thesis using True by auto
  next
    case False
    with reach_step.prems have "k < i" by simp
    then show ?thesis by (rule reach_step.IH)
  qed
qed

lemma ingest_loop_reachable:
  "reachable read_csv station_ll csvs nproc i st \<Longrightarrow> n \<le> length csvs \<Longrightarrow>
   ingest_loop read_csv station_ll csvs (min (nat nproc) (length csvs)) [i..<n] st = Inr st' \<Longrightarrow>
   i \<le> n \<Longrightarrow> reachable read_csv station_ll csvs nproc n st'"
proof (induction "n - i" arbitrary: i st)
  case 0
  then show ?case by simp
next
  case (Suc d)
  then have lt: "i < n" by simp
  then have upt: "[i..<n] = i # [Suc i..<n]" by (rule upt_conv_Cons)
  from Suc.prems(3) obtain st1 where
    s1: "ingest_file read_csv station_ll csvs (min (nat nproc) (length csvs)) i st = Inr st1"
    and s2: "ingest_loop read_csv station_ll csvs (min (nat nproc) (length csvs)) [Suc i..<n] st1 = Inr st'"
    by (auto simp: upt split: sum.splits)
  from lt Suc.prems(2) have "i < length csvs" by simp
  with Suc.prems(1) s1 have r1: "reachable read_csv station_ll csvs nproc (Suc i) st1"
    by (simp add: reach_step)
  from Suc.hyps(2) have "d = n - Suc i" by simp
  from Suc.hyps(1) [OF this r1 Suc.prems(2) s2] lt show ?case by simp
qed

lemma create_imdb_reachable:
  assumes "create_imdb read_csv station_file csvs nproc = Inr res"
  shows "\<exists>station_ll st. read_station_file station_file Map.empty = Inr station_ll \<and>
           reachable read_csv station_ll csvs nproc (length csvs) st \<and>
           res = st\<lparr>st_out := st_out st @ [LoadingComplete]\<rparr>"
proof -
  from assms obtain station_ll st0 st where
    a: "read_station_file station_file Map.empty = Inr station_ll"
    and b: "initial_state read_csv csvs nproc = Inr st0"
    and c: "ingest_loop read_csv station_ll csvs (min (nat nproc) (length csvs)) [0..<length csvs] st0 = Inr st"
    and d: "res = st\<lparr>st_out := st_out st @ [LoadingComplete]\<rparr>"
    by (auto simp: create_imdb_def split: sum.splits)
  from b have "reachable read_csv station_ll csvs nproc 0 st0" by (rule reach_init)
  from ingest_loop_reachable [OF this _ c] have "reachable read_csv station_ll csvs nproc (length csvs) st"
    by simp
  with a d show ?thesis by blast
qed

lemma insert_stations_frame:
  "insert_stations new station_ll db ids = Inr (db', ids') \<Longrightarrow>
   simulations_tbl db' = simulations_tbl db \<and> simulations_seq db' = simulations_seq db \<and>
   im_tbls db' = im_tbls db \<and> ims_tbl db' = ims_tbl db"
  by (induction new arbitrary: db ids)
     (auto simp: Let_def split: option.splits if_splits prod.splits)

lemma expand_stations_frame:
  "expand_stations db ids stations station_ll = Inr (db', ids') \<Longrightarrow>
   simulations_tbl db' = simulations_tbl db \<and> simulations_seq db' = simulations_seq db \<and>
   im_tbls db' = im_tbls db \<and> ims_tbl db' = ims_tbl db"
  by (auto simp: expand_stations_def Let_def dest: insert_stations_frame split: if_splits)

lemma store_ims_frame:
  "store_ims db table ids sim_id = Inr db' \<Longrightarrow>
   simulations_tbl db' = simulations_tbl db \<and> simulations_seq db' = simulations_seq db \<and>
   stations_tbl db' = stations_tbl db \<and> stations_seq db' = stations_seq db \<and>
   ims_tbl db' = ims_tbl db"
  by (auto simp: store_ims_def Let_def split: sum.splits)

lemma add_simulation_eq:
  "add_simulation db name = Inr (db', sim_id) \<Longrightarrow>
   sim_id = Suc (simulations_seq db) \<and>
   db' = db\<lparr>simulations_tbl := simulations_tbl db @ [(sim_id, name)], simulations_seq := sim_id\<rparr>"
  by (auto simp: add_simulation_def Let_def split: if_splits)

text \<open>What one iteration does, by cases.\<close>
lemma ingest_file_cases:
  assumes "ingest_file read_csv station_ll csvs step i st = Inr st'"
  obtains (skip) task c where
      "map_of (st_sink st) i = Some task" "pandas_loader read_csv task = Inr c"
      "listed_stations station_ll (df_index c) = []"
      "st' = st\<lparr>st_sink := prefetch csvs step i (st_sink st),
                 st_out := st_out st @ [NoStations (sim_name (csvs ! i))]\<rparr>"
  | (commit) task c db1 sim_id db2 ids2 db3 where
      "map_of (st_sink st) i = Some task" "pandas_loader read_csv task = Inr c"
      "listed_stations station_ll (df_index c) \<noteq> []"
      "add_simulation (st_db st) (sim_name (csvs ! i)) = Inr (db1, sim_id)"
      "expand_stations db1 (st_station_ids st) (listed_stations station_ll (df_index c)) station_ll
         = Inr (db2, ids2)"
      "store_ims db2 (df_loc c (listed_stations station_ll (df_index c))) ids2 sim_id = Inr db3"
      "st' = \<lparr>st_db = db3, st_station_ids = ids2,
              st_sink = prefetch csvs step i (st_sink st),
              st_out = st_out st @ [Progress sim_id (length csvs)]\<rparr>"
  using assms
  by (auto simp: ingest_file_def Let_def split: option.splits sum.splits if_splits prod.splits)

lemma init_db_tables:
  "init_db ims = Inr db \<Longrightarrow>
   ims_tbl db = ims \<and> stations_tbl db = [] \<and> stations_seq db = 0 \<and>
   simulations_tbl db = [] \<and> simulations_seq db = 0"
  by (auto simp: init_db_def split: if_splits sum.splits)

lemma map_of_keyed:
  "map_of (map (\<lambda>k. (k, f k)) xs) k = (if k \<in> set xs then Some (f k) else None)"
  by (induction xs) auto

lemma initial_state_db:
  "initial_state read_csv csvs nproc = Inr st \<Longrightarrow>
   \<exists>c. pandas_loader read_csv (csvs ! 0) = Inr c \<and> init_db (df_columns c) = Inr (st_db st) \<and>
       st_station_ids st = Map.empty \<and> st_out st = []"
  by (auto simp: initial_state_def initial_sink_def Let_def map_of_keyed
      split: option.splits sum.splits if_splits)

lemma reachable_simulations:
  "reachable read_csv station_ll csvs nproc i st \<Longrightarrow>
   map snd (simulations_tbl (st_db st))
     = map sim_name (filter (has_stations read_csv station_ll) (take i csvs)) \<and>
   map fst (simulations_tbl (st_db st)) = [1..<Suc (length (simulations_tbl (st_db st)))] \<and>
   simulations_seq (st_db st) = length (simulations_tbl (st_db st))"
proof (induction rule: reachable.induct)
  case (reach_init st)
  then show ?case by (auto dest!: initial_state_db init_db_tables)
next
  case (reach_step i st st')
  from reachable_task [OF reach_step.hyps(1,2)]
  have task: "map_of (st_sink st) i = Some (csvs ! i)" .
  have tk: "take (Suc i) csvs = take i csvs @ [csvs ! i]"
    using reach_step.hyps(2) by (simp add: take_Suc_conv_app_nth)
  from reach_step.hyps(3) show ?case
  proof (cases rule: ingest_file_cases)
    case (skip task c)
    with task have "\<not> has_stations read_csv station_ll (csvs ! i)"
      by (simp add: has_stations_def)
    with reach_step.IH skip(4) show ?thesis by (simp add: tk)
  next
    case (commit task c db1 sim_id db2 ids2 db3)
    with task have hs: "has_stations read_csv station_ll (csvs ! i)"
      by (simp add: has_stations_def)
    from add_simulation_eq [OF commit(4)] expand_stations_frame [OF commit(5)]
      store_ims_frame [OF commit(6)]
    have "simulations_tbl db3 = simulations_tbl (st_db st) @ [(Suc (simulations_seq (st_db st)), sim_name (csvs ! i))]"
      and "simulations_seq db3 = Suc (simulations_seq (st_db st))"
      by simp_all
    with reach_step.IH hs commit(7) show ?thesis by (simp add: tk)
  qed
qed

lemma sql_name_PGA: "sql_name ''PGA'' = ''pga''"
  by code_simp

lemma sql_reserved_PGA: "\<not> sql_reserved ''PGA''"
  by code_simp

text \<open>
  The names \<open>__init_db\<close> refuses: a name that differs from an earlier one or from a
  registry only in case, a reserved name, a name with a single backtick; a doubled
  backtick is one backtick of the table's name.
\<close>

lemma init_db_table_names:
  "map (\<lambda>ims. map_sum id im_tbls (init_db ims :: py_error + real imdb))
     [[''PGA'', ''pga''], [''IMS''], [''sqlite_x''], [''a`b''], [''a``b''], [''PGA'', ''PGA'']]
   = [Inl OperationalError, Inl OperationalError, Inl OperationalError, Inl OperationalError,
      Inr [(''a`b'', [])], Inl IntegrityError]"
  by code_simp



























lemma project_index:
  "project im df = Inr res \<Longrightarrow> res \<noteq> NoResult \<and> result_index res = sf_index df"
  by (auto simp: project_def result_index_def split: option.splits)

lemma query_store_success:
  assumes "q_result (query_store to_csv w station im nproc) = Inr res" and "res \<noteq> NoResult"
  obtains st rest im0 ims tbl0 id_vals where
    "filter (\<lambda>r. fst (snd r) = station) (stations_tbl (w_db w)) = st # rest"
    "ims_tbl (w_db w) = im0 # ims"
    "value_table (im_tbls (w_db w)) im0 = Inr tbl0"
    "pool_map (\<lambda>m. im_at_station (w_db w) m (fst st)
        (length (filter (\<lambda>r. fst r = fst st) tbl0))) (im0 # ims) = Inr id_vals"
    "length (gm_names_of (w_db w) (fst (hd id_vals))) = length (filter (\<lambda>r. fst r = fst st) tbl0)"
    "project im \<lparr>sf_index = map StrLabel (gm_names_of (w_db w) (fst (hd id_vals))),
                 sf_columns = im0 # ims, sf_values = map snd id_vals\<rparr> = Inr res"
    "query_store to_csv w station im nproc =
       \<lparr>q_result = Inr res,
        q_events = [StoreRead, FanOut (length (im0 # ims)), CacheWrite station],
        q_world = w\<lparr>w_cache := (w_cache w)(station \<mapsto>
          to_csv \<lparr>sf_index = map StrLabel (gm_names_of (w_db w) (fst (hd id_vals))),
                  sf_columns = im0 # ims, sf_values = map snd id_vals\<rparr>)\<rparr>\<rparr>"
  using assms
  by (auto simp: query_store_def Let_def split: list.splits option.splits sum.splits if_splits)

lemma query_store_frame:
  assumes "q_result (query_store to_csv w station None nproc) = Inr (Frame df)"
  shows "query_store to_csv w station im nproc =
       \<lparr>q_result = project im df,
        q_events = [StoreRead, FanOut (length (ims_tbl (w_db w))), CacheWrite station],
        q_world = w\<lparr>w_cache := (w_cache w)(station \<mapsto> to_csv df)\<rparr>\<rparr>"
  using assms
  by (auto simp: query_store_def Let_def project_def
      split: list.splits option.splits sum.splits if_splits)

lemma fill_values_eq:
  "fill_values rows r acc = Inr acc' \<Longrightarrow>
   acc' = take r acc @ rows @ drop (r + length rows) acc \<and>
   (rows \<noteq> [] \<longrightarrow> r + length rows \<le> length acc)"
proof (induction rows arbitrary: r acc)
  case Nil
  then show ?case by simp
next
  case (Cons row rows)
  from Cons.prems have lt: "r < length acc"
    and rec: "fill_values rows (Suc r) (acc[r := row]) = Inr acc'"
    by (auto split: if_splits cell.splits)
  from Cons.IH [OF rec] have
    e: "acc' = take (Suc r) (acc[r := row]) @ rows @ drop (Suc r + length rows) (acc[r := row])"
    and l: "rows \<noteq> [] \<longrightarrow> Suc r + length rows \<le> length acc" by simp_all
  from lt have "take (Suc r) (acc[r := row]) = take r acc @ [row]"
    by (simp add: take_Suc_conv_app_nth)
  with e l lt show ?case by auto
qed

lemma im_at_station_eq:
  assumes "im_at_station db im sid n = Inr y"
  shows "\<exists>tbl. value_table (im_tbls db) im = Inr tbl \<and>
           y = (map fst (sort_key fst (map snd (filter (\<lambda>r. fst r = sid) tbl)))
                  @ replicate (n - length (filter (\<lambda>r. fst r = sid) tbl)) 0,
                map snd (sort_key fst (map snd (filter (\<lambda>r. fst r = sid) tbl)))
                  @ replicate (n - length (filter (\<lambda>r. fst r = sid) tbl)) (Number 0))"
proof -
  from assms obtain tbl acc' where
    t: "value_table (im_tbls db) im = Inr tbl"
    and f: "fill_values (sort_key fst (map snd (filter (\<lambda>r. fst r = sid) tbl))) 0
              (replicate n (0, Number 0)) = Inr acc'"
    and y: "y = (map fst acc', map snd acc')"
    by (auto simp: im_at_station_def split: sum.splits)
  let ?rows = "sort_key fst (map snd (filter (\<lambda>r. fst r = sid) tbl))"
  from fill_values_eq [OF f]
  have "acc' = ?rows @ replicate (n - length ?rows) (0, Number 0)" by simp
  with t y show ?thesis by simp
qed

lemma pool_map_nth:
  "pool_map f xs = Inr ys \<Longrightarrow>
   length ys = length xs \<and> (\<forall>i < length xs. f (xs ! i) = Inr (ys ! i))"
proof (induction xs arbitrary: ys)
  case Nil
  then show ?case by simp
next
  case (Cons x xs)
  from Cons.prems obtain y ys' where y: "f x = Inr y" and r: "pool_map f xs = Inr ys'"
    and e: "ys = y # ys'" by (auto split: sum.splits)
  from Cons.IH [OF r] have l: "length ys' = length xs"
    and n: "\<forall>i < length xs. f (xs ! i) = Inr (ys' ! i)" by simp_all
  have "\<forall>i < length (x # xs). f ((x # xs) ! i) = Inr (ys ! i)"
  proof (intro allI impI)
    fix i assume "i < length (x # xs)"
    then show "f ((x # xs) ! i) = Inr (ys ! i)" using y n e by (cases i) simp_all
  qed
  with l e show ?case by simp
qed

lemma selected_ids:
  assumes pk: "distinct (map fst sims)" and so: "sorted ids"
    and len: "length (filter (\<lambda>s. fst s \<in> set ids) sims) = length ids"
  shows "map fst (sort_key fst (filter (\<lambda>s. fst s \<in> set ids) sims)) = ids"
proof -
  let ?sel = "filter (\<lambda>s. fst s \<in> set ids) sims"
  let ?k = "map fst (sort_key fst ?sel)"
  have dsel: "distinct (map fst ?sel)" using pk by (simp add: distinct_map_filter)
  have sk: "sorted ?k" by (rule sorted_sort_key)
  have "card (set ?k) = card (set (map fst ?sel))" by simp
  also have "\<dots> = length (map fst ?sel)" using dsel by (rule distinct_card)
  also have "\<dots> = length ?k" by simp
  finally have dk: "distinct ?k" by (rule card_distinct)
  have sub: "set ?k \<subseteq> set ids" by auto
  have "card (set ?k) = length ?k" using dk by (rule distinct_card)
  also have "\<dots> = length ids" using len by simp
  finally have c: "card (set ?k) = length ids" .
  have "card (set ids) \<le> length ids" by (rule card_length)
  moreover have "card (set ?k) \<le> card (set ids)" using sub by (simp add: card_mono)
  ultimately have ci: "card (set ids) = length ids" using c by simp
  then have di: "distinct ids" by (simp add: card_distinct)
  from sub c ci have "set ?k = set ids" by (simp add: card_subset_eq)
  with sk dk so di show ?thesis by (simp add: sorted_distinct_set_unique)
qed

lemma length_np_S7: "length (np_S7 name) \<le> 7"
proof -
  have "length (dropWhile (\<lambda>ch. ch = CHR 0x00) (rev (take 7 name)))
          \<le> length (rev (take 7 name))"
    by (rule length_dropWhile_le)
  then show ?thesis by (simp add: np_S7_def)
qed

lemma np_S7_differs: "7 < length name \<Longrightarrow> np_S7 name \<noteq> name"
  using length_np_S7 [of name] by auto

lemma argmin_less: "xs \<noteq> [] \<Longrightarrow> argmin xs < length xs"
  by (induction xs rule: argmin.induct) (auto simp: Let_def)

lemma argmin_least:
  "xs \<noteq> [] \<Longrightarrow> (\<forall>x \<in> set xs. xs ! argmin xs \<le> x) \<and> (\<forall>j < argmin xs. xs ! argmin xs < xs ! j)"
proof (induction xs rule: argmin.induct)
  case 1
  then show ?case by simp
next
  case (2 x)
  then show ?case by simp
next
  case (3 x y ys)
  let ?j = "argmin (y # ys)"
  from 3 have ih: "\<forall>z \<in> set (y # ys). (y # ys) ! ?j \<le> z"
    "\<forall>k < ?j. (y # ys) ! ?j < (y # ys) ! k" by simp_all
  show ?case
  proof (cases "(y # ys) ! ?j < x")
    case True
    then have a: "argmin (x # y # ys) = Suc ?j" by (simp add: Let_def)
    have "\<forall>k < Suc ?j. (y # ys) ! ?j < (x # y # ys) ! k"
    proof (intro allI impI)
      fix k assume "k < Suc ?j"
      then show "(y # ys) ! ?j < (x # y # ys) ! k"
        using True ih(2) by (cases k) auto
    qed
    with True ih(1) show ?thesis unfolding a by auto
  next
    case False
    then have a: "argmin (x # y # ys) = 0" by (simp add: Let_def)
    from False ih(1) show ?thesis unfolding a by (auto simp: not_less intro: order_trans)
  qed
qed

lemma np_records_rows:
  "np_records to_f4 rows = Inr recs \<Longrightarrow>
   list_all2 (\<lambda>row rec. rec_id rec = fst row \<and> rec_name rec = np_S7 (fst (snd row))) rows recs"
  by (induction rows arbitrary: recs) (auto split: option.splits sum.splits)

lemma np_records_carry:
  assumes "np_records to_f4 rows = Inr recs" and "set rows \<subseteq> set (stations_tbl db)"
    and "rec \<in> set recs"
  shows "carries_S7_name db rec"
proof -
  from assms(3) obtain k where k: "k < length recs" "recs ! k = rec"
    by (auto simp: in_set_conv_nth)
  from np_records_rows [OF assms(1)] have
    l: "list_all2 (\<lambda>row rec. rec_id rec = fst row \<and> rec_name rec = np_S7 (fst (snd row))) rows recs" .
  then have len: "length rows = length recs" by (rule list_all2_lengthD)
  from list_all2_nthD2 [OF l k(1)] k(2)
  have "rec_id rec = fst (rows ! k)" "rec_name rec = np_S7 (fst (snd (rows ! k)))" by simp_all
  moreover from k(1) len assms(2) have "rows ! k \<in> set (stations_tbl db)" by auto
  ultimately show ?thesis
    unfolding carries_S7_name_def using length_np_S7 np_S7_differs by metis
qed

lemma filter_unique_key:
  "distinct (map f xs) \<Longrightarrow> x \<in> set xs \<Longrightarrow> filter (\<lambda>y. f y = f x) xs = [x]"
proof (induction xs)
  case Nil
  then show ?case by simp
next
  case (Cons a xs)
  show ?case
  proof (cases "a = x")
    case True
    with Cons.prems(1) have "f x \<notin> f ` set xs" by simp
    then have "filter (\<lambda>y. f y = f x) xs = []"
      by (auto simp: filter_empty_conv image_iff)
    with True show ?thesis by simp
  next
    case False
    with Cons.prems have "x \<in> set xs" "f a \<noteq> f x" by auto
    with Cons show ?thesis by simp
  qed
qed

lemma closest_station_least:
  assumes "closest_station to_float dist_of db lon lat = Inr rec"
  shows "\<exists>r0 k. np_records to_float (stations_tbl db) = Inr r0 \<and> k < length r0 \<and>
           rec = (r0 ! k)\<lparr>rec_dist := Some (dist_of lon lat (rec_lon (r0 ! k)) (rec_lat (r0 ! k)))\<rparr> \<and>
           (\<forall>j < length r0. dist_of lon lat (rec_lon (r0 ! k)) (rec_lat (r0 ! k))
                                \<le> dist_of lon lat (rec_lon (r0 ! j)) (rec_lat (r0 ! j))) \<and>
           (\<forall>j < k. dist_of lon lat (rec_lon (r0 ! k)) (rec_lat (r0 ! k))
                       < dist_of lon lat (rec_lon (r0 ! j)) (rec_lat (r0 ! j)))"
proof -
  let ?d = "\<lambda>x. dist_of lon lat (rec_lon x) (rec_lat x)"
  from assms obtain r0 where
    r: "np_records to_float (stations_tbl db) = Inr r0" and ne: "r0 \<noteq> []"
    and e: "rec = (r0 ! argmin (map ?d r0))\<lparr>rec_dist := Some (map ?d r0 ! argmin (map ?d r0))\<rparr>"
    by (auto simp: closest_station_def Let_def split: sum.splits if_splits)
  let ?k = "argmin (map ?d r0)"
  from ne have k: "?k < length r0" using argmin_less [of "map ?d r0"] by simp
  from ne argmin_least [of "map ?d r0"] have
    a: "\<forall>x \<in> set (map ?d r0). map ?d r0 ! ?k \<le> x"
    and b: "\<forall>j < ?k. map ?d r0 ! ?k < map ?d r0 ! j" by simp_all
  from a k have "\<forall>j < length r0. ?d (r0 ! ?k) \<le> ?d (r0 ! j)" by simp
  moreover from b k have "\<forall>j < ?k. ?d (r0 ! ?k) < ?d (r0 ! j)" by simp
  ultimately show ?thesis using r k e by auto
qed

subsection \<open>Parse failures\<close>

text \<open>
  C1 (as stated): a parse failure on a file other than the first is caught, the file is
  skipped and the build completes. It is not so: the only handler of the loop catches
  the IndexError of \<open>csvs[i + step]\<close>; \<open>sink[i].get()\<close> stands outside it. With a
  good first file, an unreadable second and a good third, the build ends with the
  loader's error.
\<close>

lemma ex_bad_build_error:
  "map_sum id (\<lambda>st. ()) (create_imdb ex_read_csv ex_station_file [ex_f1, ex_bad, ex_f2] 2)
     = Inl ParseError"
  by code_simp

theorem parse_failure_not_skipped:
  "create_imdb ex_read_csv ex_station_file [ex_f1, ex_bad, ex_f2] 2 = Inl ParseError"
  using ex_bad_build_error
  by (cases "create_imdb ex_read_csv ex_station_file [ex_f1, ex_bad, ex_f2] 2") simp_all

text \<open>
  C1 (amended): a parse failure on any source file, the first or a later one, aborts
  the build: no build that has a file whose loader raises returns a result.
\<close>

theorem parse_failure_aborts_build:
  assumes "k < length csvs" and "pandas_loader read_csv (csvs ! k) = Inl e"
  shows "\<exists>e'. create_imdb read_csv station_file csvs nproc = Inl e'"
proof (cases "create_imdb read_csv station_file csvs nproc")
  case (Inl e')
  then show ?thesis by blast
next
  case (Inr res)
  from create_imdb_reachable [OF this] obtain station_ll st where
    "reachable read_csv station_ll csvs nproc (length csvs) st" by blast
  from reachable_parsed [OF this assms(1)] assms(2) show ?thesis by simp
qed


theorem parse_failure_aborts_build_witness:
  "1 < length [ex_f1, ex_bad, ex_f2] \<and>
   pandas_loader ex_read_csv ([ex_f1, ex_bad, ex_f2] ! 1) = Inl ParseError \<and>
   (\<exists>e'. create_imdb ex_read_csv ex_station_file [ex_f1, ex_bad, ex_f2] 2 = Inl e')"
proof -
  have h1: "1 < length [ex_f1, ex_bad, ex_f2]" by simp
  have h2: "pandas_loader ex_read_csv ([ex_f1, ex_bad, ex_f2] ! 1) = Inl ParseError"
    by (simp add: pandas_loader_def ex_read_csv_def ex_f1_def ex_f2_def ex_f3_def ex_f4_def
        ex_f5_def ex_f6_def ex_bad_def)
  from parse_failure_aborts_build [OF h1 h2] h1 h2 show ?thesis by blast
qed

subsection \<open>The prefetch window\<close>

text \<open>
  C2: in every state the loop reaches at the head of iteration \<open>i\<close>, with a pool of
  \<open>nproc \<ge> 1\<close> processes: the sink holds at most \<open>nproc\<close> tasks, each under its
  own key; no key is below \<open>i\<close>, and while files remain the task the iteration waits
  for, \<open>sink[i]\<close>, is there and reads file \<open>i\<close>, so it is the oldest one; the sink
  after the deletion and the next submission holds at most \<open>nproc\<close> tasks again; and
  the simulations table lists, in the order of the files and with ids \<open>1, 2, ...\<close>, the
  names of the files before \<open>i\<close> that had stations of interest.
\<close>

theorem bounded_lookahead_window:
  assumes "reachable read_csv station_ll csvs nproc i st"
  shows "1 \<le> nproc \<and>
         distinct (map fst (st_sink st)) \<and>
         length (st_sink st) \<le> nat nproc \<and>
         (\<forall>k \<in> fst ` set (st_sink st). i \<le> k) \<and>
         (i < length csvs \<longrightarrow>
            map_of (st_sink st) i = Some (csvs ! i) \<and>
            length (prefetch csvs (min (nat nproc) (length csvs)) i (st_sink st)) \<le> nat nproc) \<and>
         map snd (simulations_tbl (st_db st))
           = map sim_name (filter (has_stations read_csv station_ll) (take i csvs)) \<and>
         map fst (simulations_tbl (st_db st)) = [1..<Suc (length (simulations_tbl (st_db st)))]"
proof -
  let ?step = "min (nat nproc) (length csvs)"
  let ?f = "\<lambda>k. (k, csvs ! k)"
  have sink: "st_sink st = map ?f [i..<min (i + ?step) (length csvs)]"
    using assms by (rule reachable_sink)
  have np: "1 \<le> nproc" "0 < length csvs" using assms by (auto dest: reachable_nproc)
  have keys: "map fst (st_sink st) = [i..<min (i + ?step) (length csvs)]"
    by (simp add: sink o_def)
  have len: "length (st_sink st) \<le> nat nproc" by (simp add: sink)
  have low: "\<forall>k \<in> fst ` set (st_sink st). i \<le> k" by (auto simp: sink)
  have head: "map_of (st_sink st) i = Some (csvs ! i) \<and>
      length (prefetch csvs ?step i (st_sink st)) \<le> nat nproc" if lt: "i < length csvs"
  proof -
    from np have "0 < ?step" by simp
    from prefetch_window [OF lt this]
    have "length (prefetch csvs ?step i (st_sink st)) \<le> nat nproc" by (simp add: sink)
    with reachable_task [OF assms lt] show ?thesis by simp
  qed
  from reachable_simulations [OF assms] np(1) keys len low head show ?thesis
    by (simp del: upt_Suc)
qed

lemma ex_initial_state: "initial_state ex_read_csv ex_csvs 2 = Inr ex_st0"
  by (simp add: initial_state_def initial_sink_def pandas_loader_def init_db_def
      registry_tables_def ex_read_csv_def ex_csvs_def ex_st0_def ex_empty_db_def
      ex_f1_def ex_f2_def ex_f3_def upt_conv_Cons sql_name_PGA sql_reserved_PGA)

theorem bounded_lookahead_window_witness:
  "reachable ex_read_csv ex_station_ll ex_csvs 2 0 ex_st0 \<and>
   distinct (map fst (st_sink ex_st0)) \<and>
   length (st_sink ex_st0) \<le> nat 2 \<and>
   map_of (st_sink ex_st0) 0 = Some (ex_csvs ! 0) \<and>
   length (prefetch ex_csvs (min (nat 2) (length ex_csvs)) 0 (st_sink ex_st0)) \<le> nat 2"
proof -
  have r: "reachable ex_read_csv ex_station_ll ex_csvs 2 0 ex_st0"
    using ex_initial_state by (rule reach_init)
  have "0 < length ex_csvs" by (simp add: ex_csvs_def)
  with bounded_lookahead_window [OF r] r show ?thesis by simp
qed

subsection \<open>Uniqueness and presence of measurements\<close>






subsection \<open>Schema initialisation\<close>

text \<open>
  C4 (as stated): initialisation fails with a SchemaError on an empty list of measure
  names. It is not so: nothing in \<open>__init_db\<close> looks at the length of the list; the
  \<open>executemany\<close> and the loop over the names do nothing, and the three registry tables
  are created and committed with no value table.
\<close>

theorem init_db_empty_succeeds:
  "(init_db [] :: py_error + real imdb) =
     Inr \<lparr>ims_tbl = [], stations_tbl = [], stations_seq = 0,
          simulations_tbl = [], simulations_seq = 0, im_tbls = []\<rparr>"
  by (simp add: init_db_def)

text \<open>
  C4 (amended): initialisation does not fail on an empty list of measure names: it
  returns a store with the three registries, all empty, and no value table; no error
  of any kind is raised, whatever the type of the values.
\<close>

theorem init_db_empty_store:
  "(\<exists>db :: 'v imdb. init_db [] = Inr db \<and>
        ims_tbl db = [] \<and> stations_tbl db = [] \<and> simulations_tbl db = [] \<and>
        stations_seq db = 0 \<and> simulations_seq db = 0 \<and> im_tbls db = []) \<and>
   (\<nexists>e. (init_db [] :: py_error + 'v imdb) = Inl e)"
  by (simp add: init_db_def)

subsection \<open>Files without stations of interest\<close>

text \<open>
  C5: when the loop reaches a file that parses and whose \<open>geom\<close> rows name no station
  of the station file, the iteration succeeds, leaves the database and the
  \<open>station_ids\<close> dictionary as they were (no simulation, no station, no row), prints the
  informational line, and the loop goes on with the remaining files from that state.
\<close>

theorem no_stations_file_skipped:
  assumes "reachable read_csv station_ll csvs nproc i st"
    and "i < length csvs"
    and "pandas_loader read_csv (csvs ! i) = Inr c"
    and "listed_stations station_ll (df_index c) = []"
  shows "\<exists>st'. ingest_file read_csv station_ll csvs (min (nat nproc) (length csvs)) i st = Inr st' \<and>
           st_db st' = st_db st \<and>
           st_station_ids st' = st_station_ids st \<and>
           st_out st' = st_out st @ [NoStations (sim_name (csvs ! i))] \<and>
           reachable read_csv station_ll csvs nproc (Suc i) st' \<and>
           ingest_loop read_csv station_ll csvs (min (nat nproc) (length csvs)) (i # rest) st
             = ingest_loop read_csv station_ll csvs (min (nat nproc) (length csvs)) rest st'"
proof -
  let ?step = "min (nat nproc) (length csvs)"
  let ?st' = "st\<lparr>st_sink := prefetch csvs ?step i (st_sink st),
                 st_out := st_out st @ [NoStations (sim_name (csvs ! i))]\<rparr>"
  from reachable_task [OF assms(1,2)] assms(3,4)
  have step: "ingest_file read_csv station_ll csvs ?step i st = Inr ?st'"
    by (simp add: ingest_file_def)
  with assms(1,2) have "reachable read_csv station_ll csvs nproc (Suc i) ?st'"
    by (simp add: reach_step)
  with step show ?thesis by simp
qed

lemma ex_loader_f3: "pandas_loader ex_read_csv (ex_csvs ! 0) = Inr ex_c3"
  by (simp add: pandas_loader_def ex_read_csv_def ex_csvs_def ex_c3_def cells_of_def
      ex_f1_def ex_f2_def ex_f3_def)

theorem no_stations_file_skipped_witness:
  "\<exists>st'. ingest_file ex_read_csv ex_station_ll ex_csvs (min (nat 2) (length ex_csvs)) 0 ex_st0
            = Inr st' \<and>
         st_db st' = ex_empty_db \<and>
         st_out st' = [NoStations ''F_3''] \<and>
         reachable ex_read_csv ex_station_ll ex_csvs 2 (Suc 0) st'"
proof -
  have r: "reachable ex_read_csv ex_station_ll ex_csvs 2 0 ex_st0"
    using ex_initial_state by (rule reach_init)
  have l: "0 < length ex_csvs" by (simp add: ex_csvs_def)
  have n: "listed_stations ex_station_ll (df_index ex_c3) = []"
    by (simp add: listed_stations_def df_index_def ex_c3_def ex_station_ll_def)
  have s: "sim_name (ex_csvs ! 0) = ''F_3''" by code_simp
  from no_stations_file_skipped [OF r l ex_loader_f3 n, of "[]"] s show ?thesis
    by (auto simp: ex_st0_def)
qed

subsection \<open>The cache of a station\<close>

lemma ex_first_query:
  "q_result (station_ims ex_to_csv ex_read_cache ex_world ''A'' None None) = Inr (Frame ex_frame)"
  by code_simp

lemma ex_num_build:
  "map_sum id st_db (create_imdb ex_read_csv ex_station_file [ex_f6] 1) = Inr ex_num_db"
  by code_simp

text \<open>
  C6 (as stated): for every station of the store, a query followed by a second one
  returns the same result, and the second reads only the cache file. It is not so for
  every station of the store, in two ways.

  The cache file is written when the frame has been assembled, and a query can raise
  before. In the database that the build of the first and the fourth file leaves,
  station \<open>A\<close> has five rows in \<open>PGA\<close> under two simulation ids; the frame cannot be
  labelled (ValueError), no file is written, and the second query reads the database
  and fans out once more.

  And the second query returns what pandas reads from the file, which need not be the
  frame that was written. In the database the build of the sixth file leaves, the one
  simulation is named \<open>2010\<close>: the first query returns a frame with the row label
  \<open>'2010'\<close>, a string; the second reads the cache file and returns a frame with the
  row label \<open>2010\<close>, an integer.
\<close>

theorem failed_query_leaves_no_cache:
  "''A'' \<in> set (map (\<lambda>r. fst (snd r)) (stations_tbl (w_db ex_dup_world))) \<and>
   q_result (station_ims ex_to_csv ex_read_cache ex_dup_world ''A'' None None) = Inl ValueError \<and>
   q_events (station_ims ex_to_csv ex_read_cache
      (q_world (station_ims ex_to_csv ex_read_cache ex_dup_world ''A'' None None)) ''A'' None None)
     = [StoreRead, FanOut 1] \<and>
   ''A'' \<in> set (map (\<lambda>r. fst (snd r)) (stations_tbl (w_db ex_num_world))) \<and>
   map_sum id result_index
     (q_result (station_ims ex_to_csv ex_read_cache ex_num_world ''A'' None None))
     = Inr [StrLabel ''2010''] \<and>
   map_sum id result_index
     (q_result (station_ims ex_to_csv ex_read_cache
        (q_world (station_ims ex_to_csv ex_read_cache ex_num_world ''A'' None None))
        ''A'' None None))
     = Inr [IntLabel 2010]"
  by code_simp

text \<open>
  C6 (amended): when the query of a station returns a table, the query that follows
  (for the whole table or for one measure of it) reads only the cache file of the
  station: there is no fan-out and no read of the store (the outcome is the same
  whatever the database holds by then), and the world is left as it is. It returns the
  same result when pandas reads back, from the text it writes for the table of the
  station, that table.
\<close>

theorem second_query_cache_hit:
  fixes w :: "('v::zero, 't) world"
  assumes full: "q_result (station_ims to_csv read_cache w s None nproc) = Inr (Frame df)"
    and res: "q_result (station_ims to_csv read_cache w s im nproc) = Inr res"
  shows "\<forall>db'.
           q_events (station_ims to_csv read_cache
              ((q_world (station_ims to_csv read_cache w s im nproc))\<lparr>w_db := db'\<rparr>) s im nproc)
             = [CacheRead s] \<and>
           q_world (station_ims to_csv read_cache
              ((q_world (station_ims to_csv read_cache w s im nproc))\<lparr>w_db := db'\<rparr>) s im nproc)
             = (q_world (station_ims to_csv read_cache w s im nproc))\<lparr>w_db := db'\<rparr> \<and>
           (read_cache (to_csv df) = Inr df \<longrightarrow>
            q_result (station_ims to_csv read_cache
              ((q_world (station_ims to_csv read_cache w s im nproc))\<lparr>w_db := db'\<rparr>) s im nproc)
             = Inr res)"
proof (cases "w_cache w s")
  case (Some cached)
  with res show ?thesis by (simp add: station_ims_def)
next
  case None
  with full have "q_result (query_store to_csv w s None nproc) = Inr (Frame df)"
    by (simp add: station_ims_def)
  from query_store_frame [OF this] have
    q: "query_store to_csv w s im nproc =
       \<lparr>q_result = project im df,
        q_events = [StoreRead, FanOut (length (ims_tbl (w_db w))), CacheWrite s],
        q_world = w\<lparr>w_cache := (w_cache w)(s \<mapsto> to_csv df)\<rparr>\<rparr>" .
  from None q have w1: "q_world (station_ims to_csv read_cache w s im nproc)
      = w\<lparr>w_cache := (w_cache w)(s \<mapsto> to_csv df)\<rparr>"
    by (simp add: station_ims_def)
  from None q res have p: "project im df = Inr res" by (simp add: station_ims_def)
  from w1 p show ?thesis by (simp add: station_ims_def)
qed

theorem second_query_cache_hit_witness:
  "q_result (station_ims ex_to_csv ex_read_cache
      (q_world (station_ims ex_to_csv ex_read_cache ex_world ''A'' None None)) ''A'' None None)
     = Inr (Frame ex_frame) \<and>
   q_events (station_ims ex_to_csv ex_read_cache
      (q_world (station_ims ex_to_csv ex_read_cache ex_world ''A'' None None)) ''A'' None None)
     = [CacheRead ''A'']"
proof -
  have rt: "ex_read_cache (ex_to_csv ex_frame) = Inr ex_frame"
    by (simp add: ex_read_cache_def ex_to_csv_def ex_frame_def ex_num_frame_def)
  let ?w1 = "q_world (station_ims ex_to_csv ex_read_cache ex_world ''A'' None None)"
  from second_query_cache_hit [OF ex_first_query ex_first_query] rt
  have "q_events (station_ims ex_to_csv ex_read_cache (?w1\<lparr>w_db := w_db ?w1\<rparr>) ''A'' None None)
          = [CacheRead ''A''] \<and>
        q_result (station_ims ex_to_csv ex_read_cache (?w1\<lparr>w_db := w_db ?w1\<rparr>) ''A'' None None)
          = Inr (Frame ex_frame)" by blast
  then show ?thesis by simp
qed

subsection \<open>The order of the rows of a query\<close>

text \<open>
  C7: when a query without a cache file returns a table, the table is a frame (or the
  asked column of a frame) whose columns are the measures of the store and whose rows
  are in ascending order of simulation id: the column of every measure holds the values
  of the station's rows in that measure's table, by ascending simulation id (followed by
  zeros when the table has fewer rows than the first measure's); and the row labels are
  the names (strings) of rows of \<open>simulations\<close> (ids unique, the primary key) whose ids, in
  this order, are ascending and are the simulation ids of the first column's values.
\<close>

theorem uncached_rows_ascending:
  fixes w :: "('v::zero, 't) world"
  assumes nc: "w_cache w station = None"
    and res: "q_result (station_ims to_csv read_cache w station im nproc) = Inr res"
    and nn: "res \<noteq> NoResult"
    and pk: "distinct (map fst (simulations_tbl (w_db w)))"
  shows "\<exists>st rest sims df.
           filter (\<lambda>r. fst (snd r) = station) (stations_tbl (w_db w)) = st # rest \<and>
           project im df = Inr res \<and>
           sf_columns df = ims_tbl (w_db w) \<and>
           length (sf_values df) = length (ims_tbl (w_db w)) \<and>
           set sims \<subseteq> set (simulations_tbl (w_db w)) \<and>
           sorted (map fst sims) \<and>
           sf_index df = map (\<lambda>sim. StrLabel (snd sim)) sims \<and>
           result_index res = map (\<lambda>sim. StrLabel (snd sim)) sims \<and>
           (\<forall>i < length (ims_tbl (w_db w)). \<exists>tbl rows.
              value_table (im_tbls (w_db w)) (ims_tbl (w_db w) ! i) = Inr tbl \<and>
              mset rows = mset (map snd (filter (\<lambda>r. fst r = fst st) tbl)) \<and>
              sorted (map fst rows) \<and>
              (i = 0 \<longrightarrow> map fst rows = map fst sims) \<and>
              sf_values df ! i
                = map snd rows @ replicate (length sims - length rows) (Number 0))"
proof -
  from nc res have "q_result (query_store to_csv w station im nproc) = Inr res"
    by (simp add: station_ims_def)
  from this nn show ?thesis
  proof (rule query_store_success)
    fix st :: "nat \<times> string \<times> string \<times> string" and rest im0 ims
      and tbl0 :: "(nat \<times> nat \<times> 'v cell) list"
      and id_vals :: "(nat list \<times> 'v cell list) list"
    let ?n = "length (filter (\<lambda>r. fst r = fst st) tbl0)"
    let ?ids = "fst (hd id_vals)"
    let ?sims = "sort_key fst (filter (\<lambda>s. fst s \<in> set ?ids) (simulations_tbl (w_db w)))"
    let ?df = "\<lparr>sf_index = map StrLabel (gm_names_of (w_db w) ?ids),
                 sf_columns = im0 # ims, sf_values = map snd id_vals\<rparr>"
    let ?sel = "\<lambda>tbl. sort_key fst (map snd (filter (\<lambda>r. fst r = fst st) tbl))"
    assume a: "filter (\<lambda>r. fst (snd r) = station) (stations_tbl (w_db w)) = st # rest"
      and b: "ims_tbl (w_db w) = im0 # ims"
      and c: "value_table (im_tbls (w_db w)) im0 = Inr tbl0"
      and d: "pool_map (\<lambda>m. im_at_station (w_db w) m (fst st) ?n) (im0 # ims) = Inr id_vals"
      and e: "length (gm_names_of (w_db w) ?ids) = ?n"
      and f: "project im ?df = Inr res"
    from pool_map_nth [OF d] have len: "length id_vals = length (im0 # ims)"
      and each: "\<forall>i < length (im0 # ims).
                  im_at_station (w_db w) ((im0 # ims) ! i) (fst st) ?n = Inr (id_vals ! i)"
      by simp_all
    from len have ne: "id_vals \<noteq> []" by auto
    from each have "im_at_station (w_db w) im0 (fst st) ?n = Inr (id_vals ! 0)" by auto
    from im_at_station_eq [OF this] c have "fst (id_vals ! 0) = map fst (?sel tbl0)" by auto
    with ne have ids: "?ids = map fst (?sel tbl0)" by (simp add: hd_conv_nth)
    then have so: "sorted ?ids" by (simp add: sorted_sort_key)
    from ids have li: "length ?ids = ?n" by simp
    with e have "length (filter (\<lambda>s. fst s \<in> set ?ids) (simulations_tbl (w_db w))) = length ?ids"
      by (simp add: gm_names_of_def)
    from selected_ids [OF pk so this] have k: "map fst ?sims = ?ids" .
    have ls: "length ?sims = ?n" using k li by (metis length_map)
    have cols: "\<forall>i < length (ims_tbl (w_db w)). \<exists>tbl rows.
              value_table (im_tbls (w_db w)) (ims_tbl (w_db w) ! i) = Inr tbl \<and>
              mset rows = mset (map snd (filter (\<lambda>r. fst r = fst st) tbl)) \<and>
              sorted (map fst rows) \<and>
              (i = 0 \<longrightarrow> map fst rows = map fst ?sims) \<and>
              sf_values ?df ! i
                = map snd rows @ replicate (length ?sims - length rows) (Number 0)"
    proof (intro allI impI)
      fix i assume i: "i < length (ims_tbl (w_db w))"
      with b each have "im_at_station (w_db w) (ims_tbl (w_db w) ! i) (fst st) ?n
          = Inr (id_vals ! i)" by simp
      from im_at_station_eq [OF this] obtain tbl where
        t: "value_table (im_tbls (w_db w)) (ims_tbl (w_db w) ! i) = Inr tbl"
        and y: "snd (id_vals ! i) = map snd (?sel tbl)
                  @ replicate (?n - length (filter (\<lambda>r. fst r = fst st) tbl)) (Number 0)"
        by auto
      have m: "mset (?sel tbl) = mset (map snd (filter (\<lambda>r. fst r = fst st) tbl))" by simp
      have s: "sorted (map fst (?sel tbl))" by (rule sorted_sort_key)
      have z: "i = 0 \<longrightarrow> map fst (?sel tbl) = map fst ?sims"
      proof
        assume "i = 0"
        with t b c have "tbl = tbl0" by simp
        with ids k show "map fst (?sel tbl) = map fst ?sims" by simp
      qed
      from i b len have "sf_values ?df ! i = snd (id_vals ! i)" by simp
      with y ls have v: "sf_values ?df ! i
          = map snd (?sel tbl) @ replicate (length ?sims - length (?sel tbl)) (Number 0)"
        by simp
      from t m s z v show "\<exists>tbl rows.
              value_table (im_tbls (w_db w)) (ims_tbl (w_db w) ! i) = Inr tbl \<and>
              mset rows = mset (map snd (filter (\<lambda>r. fst r = fst st) tbl)) \<and>
              sorted (map fst rows) \<and>
              (i = 0 \<longrightarrow> map fst rows = map fst ?sims) \<and>
              sf_values ?df ! i
                = map snd rows @ replicate (length ?sims - length rows) (Number 0)"
        by blast
    qed
    have ix: "sf_index ?df = map (\<lambda>sim. StrLabel (snd sim)) ?sims"
      by (simp add: gm_names_of_def o_def)
    from project_index [OF f] ix have ri: "result_index res = map (\<lambda>sim. StrLabel (snd sim)) ?sims" by simp
    have sub: "set ?sims \<subseteq> set (simulations_tbl (w_db w))" by auto
    have sos: "sorted (map fst ?sims)" by (rule sorted_sort_key)
    have c1: "sf_columns ?df = ims_tbl (w_db w)" using b by simp
    have c2: "length (sf_values ?df) = length (ims_tbl (w_db w))" using b len by simp
    from a f c1 c2 sub sos ix ri cols show ?thesis by blast
  qed
qed

theorem uncached_rows_ascending_witness:
  "\<exists>sims df.
     project None df = Inr (Frame ex_frame) \<and>
     set sims \<subseteq> set (simulations_tbl ex_db) \<and>
     sorted (map fst sims) \<and>
     sf_index ex_frame = map (\<lambda>sim. StrLabel (snd sim)) sims \<and>
     (\<exists>rows. mset rows = mset [(1, Number 0.5), (2, Number (1.5 :: real))] \<and>
        sorted (map fst rows) \<and> map fst rows = map fst sims \<and>
        sf_values ex_frame ! 0 = map snd rows @ replicate (length sims - length rows) (Number 0))"
proof -
  have nc: "w_cache ex_world ''A'' = None" by (simp add: ex_world_def)
  have nn: "Frame ex_frame \<noteq> NoResult" by simp
  have pk: "distinct (map fst (simulations_tbl (w_db ex_world)))"
    by (simp add: ex_world_def ex_db_def)
  have vt: "value_table (im_tbls ex_db) ''PGA'' = Inr [(1, 1, Number 0.5), (1, 2, Number 1.5)]"
    by code_simp
  from uncached_rows_ascending [OF nc ex_first_query nn pk] obtain st rest sims df where
    s: "filter (\<lambda>r. fst (snd r) = ''A'') (stations_tbl (w_db ex_world)) = st # rest"
    and p: "project None df = Inr (Frame ex_frame)"
    and sub: "set sims \<subseteq> set (simulations_tbl (w_db ex_world))"
    and so: "sorted (map fst sims)"
    and ix: "sf_index df = map (\<lambda>sim. StrLabel (snd sim)) sims"
    and cols: "\<forall>i < length (ims_tbl (w_db ex_world)). \<exists>tbl rows.
              value_table (im_tbls (w_db ex_world)) (ims_tbl (w_db ex_world) ! i) = Inr tbl \<and>
              mset rows = mset (map snd (filter (\<lambda>r. fst r = fst st) tbl)) \<and>
              sorted (map fst rows) \<and>
              (i = 0 \<longrightarrow> map fst rows = map fst sims) \<and>
              sf_values df ! i
                = map snd rows @ replicate (length sims - length rows) (Number 0)"
    by blast
  from p have df: "df = ex_frame" by (simp add: project_def)
  from s have st: "fst st = 1" by (auto simp: ex_world_def ex_db_def)
  have "0 < length (ims_tbl (w_db ex_world))" by (simp add: ex_world_def ex_db_def)
  with cols obtain tbl rows where
    t: "value_table (im_tbls (w_db ex_world)) (ims_tbl (w_db ex_world) ! 0) = Inr tbl"
    and m: "mset rows = mset (map snd (filter (\<lambda>r. fst r = fst st) tbl))"
    and sr: "sorted (map fst rows)" and e: "map fst rows = map fst sims"
    and v: "sf_values df ! 0 = map snd rows @ replicate (length sims - length rows) (Number 0)"
    by blast
  from t vt have "tbl = [(1, 1, Number 0.5), (1, 2, Number 1.5)]"
    by (simp add: ex_world_def ex_db_def)
  with m st have "mset rows = mset [(1, Number 0.5), (2, Number (1.5 :: real))]" by simp
  with sr e v df have "\<exists>rows. mset rows = mset [(1, Number 0.5), (2, Number (1.5 :: real))] \<and>
        sorted (map fst rows) \<and> map fst rows = map fst sims \<and>
        sf_values ex_frame ! 0 = map snd rows @ replicate (length sims - length rows) (Number 0)"
    by blast
  moreover from sub have "set sims \<subseteq> set (simulations_tbl ex_db)" by (simp add: ex_world_def)
  moreover from ix df have "sf_index ex_frame = map (\<lambda>sim. StrLabel (snd sim)) sims" by simp
  moreover from p df have "project None ex_frame = Inr (Frame ex_frame)" by simp
  ultimately show ?thesis using so by blast
qed

subsection \<open>Unknown stations\<close>

text \<open>
  C8: for a station name with no cache file and no row in \<open>stations\<close>, the query
  returns \<open>None\<close> (no exception), after reading the database and printing that the
  station was not found; the database and the cache directory are as before.
\<close>

theorem unknown_station_no_result:
  assumes "w_cache w station = None"
    and "station \<notin> set (map (\<lambda>r. fst (snd r)) (stations_tbl (w_db w)))"
  shows "station_ims to_csv read_cache w station im nproc
         = \<lparr>q_result = Inr NoResult, q_events = [StoreRead, PrintNotFound station], q_world = w\<rparr>"
proof -
  from assms(2) have "filter (\<lambda>r. fst (snd r) = station) (stations_tbl (w_db w)) = []"
    by (auto simp: filter_empty_conv)
  with assms(1) show ?thesis by (simp add: station_ims_def query_store_def)
qed

theorem unknown_station_no_result_witness:
  "station_ims ex_to_csv ex_read_cache ex_world ''B'' None None
     = \<lparr>q_result = Inr NoResult, q_events = [StoreRead, PrintNotFound ''B''],
        q_world = ex_world\<rparr>"
proof -
  have a: "w_cache ex_world ''B'' = None" by (simp add: ex_world_def)
  have b: "''B'' \<notin> set (map (\<lambda>r. fst (snd r)) (stations_tbl (w_db ex_world)))"
    by (simp add: ex_world_def ex_db_def)
  from unknown_station_no_result [OF a b] show ?thesis .
qed

subsection \<open>Station names in the returned records\<close>

text \<open>
  C10: every record \<open>closest_station\<close> or \<open>station_details\<close> returns carries the
  name of a stored station cut to the seven bytes of the field, so a name other than the
  stored one when that is longer; and for every stored station (names are unique) whose
  coordinates convert, the lookup by its name returns the one record with the cut name.
\<close>

theorem station_name_truncated:
  fixes db :: "'v imdb" and rec :: "('c, 'd::linorder) station_rec"
    and rec' :: "('c, 'e) station_rec"
  shows "(closest_station to_float dist_of db lon lat = Inr rec \<longrightarrow> carries_S7_name db rec) \<and>
         (station_details to_float db station_name station_id = Inr (One rec') \<longrightarrow>
            carries_S7_name db rec') \<and>
         (station_details to_float db station_name station_id = Inr (Many recs) \<longrightarrow>
            (\<forall>x \<in> set recs. carries_S7_name db (x :: ('c, 'e) station_rec))) \<and>
         (distinct (map (\<lambda>r. fst (snd r)) (stations_tbl db)) \<longrightarrow>
          row \<in> set (stations_tbl db) \<longrightarrow>
          to_float (fst (snd (snd row))) = Some x \<longrightarrow> to_float (snd (snd (snd row))) = Some y \<longrightarrow>
            station_details to_float db (Some (fst (snd row))) None
              = Inr (One \<lparr>rec_id = fst row, rec_name = np_S7 (fst (snd row)),
                          rec_lon = x, rec_lat = y, rec_dist = (None :: 'e option)\<rparr>))"
proof (intro conjI impI)
  assume c: "closest_station to_float dist_of db lon lat = Inr rec"
  then obtain r0 :: "('c, 'd) station_rec list" where
    r: "np_records to_float (stations_tbl db) = Inr r0" and ne: "r0 \<noteq> []"
    and e: "rec = (r0 ! argmin (map (\<lambda>x. dist_of lon lat (rec_lon x) (rec_lat x)) r0))
              \<lparr>rec_dist := Some (map (\<lambda>x. dist_of lon lat (rec_lon x) (rec_lat x)) r0
                 ! argmin (map (\<lambda>x. dist_of lon lat (rec_lon x) (rec_lat x)) r0))\<rparr>"
    by (auto simp: closest_station_def Let_def split: sum.splits if_splits)
  let ?k = "argmin (map (\<lambda>x. dist_of lon lat (rec_lon x) (rec_lat x)) r0)"
  from ne have "?k < length r0" using argmin_less [of "map (\<lambda>x. dist_of lon lat (rec_lon x) (rec_lat x)) r0"]
    by simp
  then have "r0 ! ?k \<in> set r0" by simp
  from np_records_carry [OF r subset_refl this] have "carries_S7_name db (r0 ! ?k)" .
  with e show "carries_S7_name db rec" by (simp add: carries_S7_name_def)
next
  let ?rows = "case station_name of
                    Some n \<Rightarrow> filter (\<lambda>row. fst (snd row) = n) (stations_tbl db)
                  | None \<Rightarrow>
                      (case station_id of
                         Some i \<Rightarrow> filter (\<lambda>row. fst row = i) (stations_tbl db)
                       | None \<Rightarrow> stations_tbl db)"
  have sub: "set ?rows \<subseteq> set (stations_tbl db)" by (auto split: option.splits)
  {
    assume "station_details to_float db station_name station_id = Inr (One rec')"
    then obtain r :: "('c, 'e) station_rec list" where r: "np_records to_float ?rows = Inr r"
      and "length r = 1" "rec' = r ! 0"
      by (auto simp: station_details_def Let_def split: sum.splits if_splits)
    then have "rec' \<in> set r" by (cases r) auto
    from np_records_carry [OF r sub this] show "carries_S7_name db rec'" .
  }
  {
    assume "station_details to_float db station_name station_id = Inr (Many recs)"
    then have r: "np_records to_float ?rows = Inr recs"
      by (auto simp: station_details_def Let_def split: sum.splits if_splits)
    show "\<forall>x \<in> set recs. carries_S7_name db x"
    proof
      fix x assume "x \<in> set recs"
      from np_records_carry [OF r sub this] show "carries_S7_name db x" .
    qed
  }
next
  assume d: "distinct (map (\<lambda>r. fst (snd r)) (stations_tbl db))"
    and m: "row \<in> set (stations_tbl db)"
    and x: "to_float (fst (snd (snd row))) = Some x" and y: "to_float (snd (snd (snd row))) = Some y"
  from filter_unique_key [OF d m]
  have "filter (\<lambda>r. fst (snd r) = fst (snd row)) (stations_tbl db) = [row]" .
  with x y show "station_details to_float db (Some (fst (snd row))) None
              = Inr (One \<lparr>rec_id = fst row, rec_name = np_S7 (fst (snd row)),
                          rec_lon = x, rec_lat = y, rec_dist = (None :: 'e option)\<rparr>)"
    by (simp add: station_details_def)
qed

lemma ex_closest:
  "closest_station ex_to_f4 ex_dist ex_long_db 172 (- 43)
     = Inr \<lparr>rec_id = 1, rec_name = ''STATION'', rec_lon = 172.5, rec_lat = - 43.5,
            rec_dist = Some 1\<rparr>"
  by code_simp

theorem station_name_truncated_witness:
  "carries_S7_name ex_long_db
     \<lparr>rec_id = 1, rec_name = ''STATION'', rec_lon = 172.5 :: real, rec_lat = - 43.5,
      rec_dist = Some (1 :: real)\<rparr> \<and>
   station_details ex_to_f4 ex_long_db (Some ''STATION01'') None
     = Inr (One \<lparr>rec_id = 1, rec_name = ''STATION'', rec_lon = 172.5, rec_lat = - 43.5,
                 rec_dist = (None :: real option)\<rparr>)"
proof -
  have d: "distinct (map (\<lambda>r. fst (snd r)) (stations_tbl ex_long_db))"
    by (simp add: ex_long_db_def)
  have m: "(1, ''STATION01'', ''172.5'', ''-43.5'') \<in> set (stations_tbl ex_long_db)"
    by (simp add: ex_long_db_def)
  have x: "ex_to_f4 ''172.5'' = Some 172.5" and y: "ex_to_f4 ''-43.5'' = Some (- 43.5)"
    by (simp_all add: ex_to_f4_def)
  have s: "np_S7 ''STATION01'' = ''STATION''" by (simp add: np_S7_def)
  from station_name_truncated [where to_float = ex_to_f4 and dist_of = ex_dist
      and db = ex_long_db and lon = 172 and lat = "- 43"
      and rec = "\<lparr>rec_id = 1, rec_name = ''STATION'', rec_lon = 172.5 :: real,
                  rec_lat = - 43.5, rec_dist = Some (1 :: real)\<rparr>"
      and rec' = "\<lparr>rec_id = 1, rec_name = ''STATION'', rec_lon = 172.5 :: real,
                  rec_lat = - 43.5, rec_dist = (None :: real option)\<rparr>"
      and row = "(1, ''STATION01'', ''172.5'', ''-43.5'')" and x = "172.5" and y = "- 43.5"]
    ex_closest d m x y s
  show ?thesis by simp
qed

end
